theory Spec2Isabelle
  imports Complex_Main "HOL-Library.Char_ord" "HOL-Library.List_Lexorder"
    "HOL-Library.Product_Lexorder" "HOL-Library.Multiset"
begin

section \<open>Python strings and exceptions\<close>

text \<open>
  Strings are lists of characters. The character classes below are the ASCII part of
  Python's \<^verbatim>\<open>str.isspace\<close>, \<^verbatim>\<open>str.lower\<close> and the regular expression class
  \<^verbatim>\<open>\w\<close>; the model reads every text as a sequence of ASCII code points.
\<close>

datatype exc =
    ValueError string
  | TypeError string
  | PermissionError string
  | RuntimeError string
  | IndexError
  | OtherException string

definition is_space :: "char \<Rightarrow> bool" where
  "is_space c = (of_char c \<in> {9, 10, 11, 12, 13, 28, 29, 30, 31, 32 :: nat})"

definition lstrip :: "string \<Rightarrow> string" where
  "lstrip s = dropWhile is_space s"

definition rstrip :: "string \<Rightarrow> string" where
  "rstrip s = rev (dropWhile is_space (rev s))"

definition strip :: "string \<Rightarrow> string" where
  "strip s = rstrip (lstrip s)"

definition char_lower :: "char \<Rightarrow> char" where
  "char_lower c =
     (case map_of (zip ''ABCDEFGHIJKLMNOPQRSTUVWXYZ'' ''abcdefghijklmnopqrstuvwxyz'') c of
        Some l \<Rightarrow> l
      | None \<Rightarrow> c)"

definition str_lower :: "string \<Rightarrow> string" where
  "str_lower s = map char_lower s"

text \<open>A value between single quotes, as the f-strings of the source print it.\<close>

definition quoted :: "string \<Rightarrow> string" where
  "quoted s = [CHR 0x27] @ s @ [CHR 0x27]"

fun startswith :: "string \<Rightarrow> string \<Rightarrow> bool" where
  "startswith s [] = True"
| "startswith [] (p # ps) = False"
| "startswith (c # cs) (p # ps) = (c = p \<and> startswith cs ps)"


section \<open>Path guard (logic/permissions.py)\<close>

text \<open>
  \<^verbatim>\<open>os.path.abspath\<close> and \<^verbatim>\<open>os.name\<close> belong to the Python runtime, not to
  the repository; the path guard takes them as an environment. \<^verbatim>\<open>os.sep\<close> is the
  backslash on Windows and the slash elsewhere.
\<close>

record os_env =
  os_abspath :: "string \<Rightarrow> string"
  os_name_nt :: bool

definition os_sep :: "os_env \<Rightarrow> char" where
  "os_sep os = (if os_name_nt os then CHR 0x5C else CHR ''/'')"

definition at_boundary :: "os_env \<Rightarrow> string \<Rightarrow> string \<Rightarrow> bool" where
  "at_boundary os check_path allowed_check =
     (if length check_path = length allowed_check then True
      else if length allowed_check < length check_path
      then (check_path ! length allowed_check = os_sep os
            \<or> check_path ! length allowed_check = CHR ''/'')
      else False)"

fun allowed_loop :: "os_env \<Rightarrow> string \<Rightarrow> string \<Rightarrow> string list \<Rightarrow> string option" where
  "allowed_loop os abs_file_path check_path [] = None"
| "allowed_loop os abs_file_path check_path (path # rest) =
     (let abs_allowed = os_abspath os path;
          allowed_check = (if os_name_nt os then str_lower abs_allowed else abs_allowed)
      in if startswith check_path allowed_check \<and> at_boundary os check_path allowed_check
         then Some abs_file_path
         else allowed_loop os abs_file_path check_path rest)"

definition validate_path_in_allowed ::
  "os_env \<Rightarrow> string \<Rightarrow> string list \<Rightarrow> string \<Rightarrow> exc + string" where
  "validate_path_in_allowed os file_path allowed_paths operation_name =
     (let abs_file_path = os_abspath os file_path;
          check_path = (if os_name_nt os then str_lower abs_file_path else abs_file_path)
      in case allowed_loop os abs_file_path check_path allowed_paths of
           Some p \<Rightarrow> Inr p
         | None \<Rightarrow> Inl (PermissionError
             (operation_name @ '' denied. Path '' @ quoted file_path
                @ '' is not in allowed_paths.'')))"

text \<open>The form in which a path is compared: absolute, and case-folded on Windows.\<close>

definition check_form :: "os_env \<Rightarrow> string \<Rightarrow> string" where
  "check_form os p = (if os_name_nt os then str_lower (os_abspath os p) else os_abspath os p)"

text \<open>A candidate lies under a root when it is the root or continues it with a separator.\<close>

definition under_root :: "os_env \<Rightarrow> string \<Rightarrow> string \<Rightarrow> bool" where
  "under_root os c r =
     (c = r \<or> (\<exists>rest. c = r @ os_sep os # rest) \<or> (\<exists>rest. c = r @ CHR ''/'' # rest))"


section \<open>Python values, lists and slices\<close>

text \<open>
  The values that cross the JSON boundary. A float is finite or one of the three special
  values; \<open>PDatetime\<close> carries the ISO text that \<^verbatim>\<open>isoformat()\<close> prints.
\<close>

datatype pyfloat = Fin real | PosInf | NegInf | NaN

datatype pyval =
    PNone
  | PBool bool
  | PInt int
  | PFloat pyfloat
  | PStr string
  | PList "pyval list"
  | PDict "(string \<times> pyval) list"
  | PDatetime string

text \<open>\<^verbatim>\<open>xs[a:b]\<close>: a negative bound counts from the end, and both are clamped.\<close>

definition py_slice :: "'a list \<Rightarrow> int \<Rightarrow> int \<Rightarrow> 'a list" where
  "py_slice xs a b =
     (let n = int (length xs);
          lo = (if a < 0 then max 0 (n + a) else min a n);
          hi = (if b < 0 then max 0 (n + b) else min b n)
      in take (nat (hi - lo)) (drop (nat lo) xs))"

section \<open>Configuration (config_manager.py) and permissions (logic/permissions.py)\<close>

text \<open>
  A grant is absent, a boolean or a list of field names. The libraries of the
  configuration are kept in the order of the file, as the Python dict keeps them.
\<close>

datatype grant = GAbsent | GBool bool | GList "string list"

fun grant_truthy :: "grant \<Rightarrow> bool" where
  "grant_truthy GAbsent = False"
| "grant_truthy (GBool b) = b"
| "grant_truthy (GList fs) = (fs \<noteq> [])"

record lib_entry =
  le_default :: bool
  le_read :: grant
  le_write :: grant
  le_convert :: bool

record lib_conf =
  lc_name :: string
  lc_read :: grant
  lc_write :: grant
  lc_convert :: bool

type_synonym config = "(string \<times> lib_entry) list"

definition mk_conf :: "string \<Rightarrow> lib_entry \<Rightarrow> lib_conf" where
  "mk_conf n c = \<lparr>lc_name = n, lc_read = le_read c, lc_write = le_write c,
                  lc_convert = le_convert c\<rparr>"

definition get_library_config :: "config \<Rightarrow> string option \<Rightarrow> lib_conf option" where
  "get_library_config libs library_name =
     (if libs = [] then None
      else case library_name of
        Some n \<Rightarrow>
          (if n \<noteq> [] then map_option (mk_conf n) (map_of libs n)
           else (case find (\<lambda>(name, c). le_default c) libs of
                   Some (name, c) \<Rightarrow> Some (mk_conf name c)
                 | None \<Rightarrow> Some (mk_conf (fst (hd libs)) (snd (hd libs)))))
      | None \<Rightarrow>
          (case find (\<lambda>(name, c). le_default c) libs of
             Some (name, c) \<Rightarrow> Some (mk_conf name c)
           | None \<Rightarrow> Some (mk_conf (fst (hd libs)) (snd (hd libs)))))"

text \<open>How an f-string prints the library name argument, which may be None.\<close>

definition show_lib :: "string option \<Rightarrow> string" where
  "show_lib l = (case l of None \<Rightarrow> ''None'' | Some n \<Rightarrow> n)"

definition get_lib_conf :: "config \<Rightarrow> string option \<Rightarrow> exc + lib_conf" where
  "get_lib_conf cm library_name =
     (case get_library_config cm library_name of
        None \<Rightarrow> Inl (ValueError (''Library '' @ quoted (show_lib library_name) @ '' not found.''))
      | Some lib_conf \<Rightarrow> Inr lib_conf)"


section \<open>Reading a book record (logic/__init__.py)\<close>

text \<open>
  \<^verbatim>\<open>worker_pool.send_rpc\<close> raises or returns the decoded reply; for an operation that
  makes one call and changes no state of its own, the outcome of that call is an argument.
  The reply to \<^verbatim>\<open>get_book_details\<close> is a record, a dict from field names to values.
\<close>

definition get_book_details_impl ::
  "config \<Rightarrow> (exc + (string \<times> pyval) list) \<Rightarrow> string option \<Rightarrow> exc + (string \<times> pyval) list" where
  "get_book_details_impl cm rpc_result library_name =
     (case rpc_result of
        Inl e \<Rightarrow> Inl e
      | Inr details \<Rightarrow>
          (case get_library_config cm library_name of
             Some lib_conf \<Rightarrow>
               (case lc_read lib_conf of
                  GList read_perm \<Rightarrow>
                    Inr (filter (\<lambda>(k, v). k \<in> set read_perm \<union> {''book_id''}) details)
                | _ \<Rightarrow> Inr details)
           | None \<Rightarrow> Inr details))"

section \<open>Field value counts (logic/metadata_ops.py)\<close>







section \<open>Proximity search (logic/text_search.py)\<close>

definition is_word_char :: "char \<Rightarrow> bool" where
  "is_word_char c =
     (let n = (of_char c :: nat)
      in (48 \<le> n \<and> n \<le> 57) \<or> (65 \<le> n \<and> n \<le> 90) \<or> (97 \<le> n \<and> n \<le> 122) \<or> n = 95)"

text \<open>
  \<^verbatim>\<open>re.finditer(r'\w+', text)\<close>: the maximal runs of word characters with their start
  and end offsets. \<open>cur\<close> is the run being read and \<open>pos\<close> the offset of the next
  character.
\<close>

fun word_tokens :: "int \<Rightarrow> string \<Rightarrow> string \<Rightarrow> (int \<times> int \<times> string) list" where
  "word_tokens pos cur [] = (if cur = [] then [] else [(pos - int (length cur), pos, cur)])"
| "word_tokens pos cur (c # cs) =
     (if is_word_char c then word_tokens (pos + 1) (cur @ [c]) cs
      else (if cur = [] then [] else [(pos - int (length cur), pos, cur)])
           @ word_tokens (pos + 1) [] cs)"

definition finditer_words :: "string \<Rightarrow> (int \<times> int \<times> string) list" where
  "finditer_words text = word_tokens 0 [] text"

definition findall_words :: "string \<Rightarrow> string list" where
  "findall_words text = map (\<lambda>(s, e, w). w) (finditer_words text)"

text \<open>A candidate hit: start, end and stem of a text token whose stem is a query stem.\<close>

record cand =
  c_start :: int
  c_end :: int
  c_stem :: string

text \<open>
  The Porter stemmer is NLTK's; the search takes it as the function \<open>stem\<close>. The set of
  query stems is only asked for its size and for membership.
\<close>

definition query_stems :: "(string \<Rightarrow> string) \<Rightarrow> string \<Rightarrow> string list" where
  "query_stems stem query = remdups (map stem (findall_words (str_lower query)))"

definition candidates :: "(string \<Rightarrow> string) \<Rightarrow> string list \<Rightarrow> string \<Rightarrow> cand list" where
  "candidates stem qs text =
     map (\<lambda>(s, e, w). \<lparr>c_start = s, c_end = e, c_stem = stem (str_lower w)\<rparr>)
       (filter (\<lambda>(s, e, w). stem (str_lower w) \<in> set qs) (finditer_words text))"

text \<open>
  The state of the sliding window: the spans found, the count of each stem in the
  window, the number of distinct stems in it, and the left edge.
\<close>

record window =
  w_results :: "(int \<times> int) list"
  w_counts :: "string \<Rightarrow> int"
  w_unique :: int
  w_left :: nat

text \<open>One pass through the body of the inner \<^verbatim>\<open>while\<close> loop.\<close>

definition shrink_step :: "cand list \<Rightarrow> int \<Rightarrow> nat \<Rightarrow> window \<Rightarrow> window" where
  "shrink_step cs window_size right w =
     (let span_start = c_start (cs ! w_left w);
          span_end = c_end (cs ! right);
          results = (if span_end - span_start \<le> window_size
                     then w_results w @ [(span_start, span_end)] else w_results w);
          stem_l = c_stem (cs ! w_left w);
          counts = (w_counts w)(stem_l := w_counts w stem_l - 1);
          unique = (if counts stem_l = 0 then w_unique w - 1 else w_unique w)
      in \<lparr>w_results = results, w_counts = counts, w_unique = unique, w_left = w_left w + 1\<rparr>)"

text \<open>
  The inner \<^verbatim>\<open>while\<close> loop for a fixed right edge. Reading \<^verbatim>\<open>candidates[left]\<close>
  past the end of the list is Python's IndexError.
\<close>

function shrink :: "cand list \<Rightarrow> int \<Rightarrow> int \<Rightarrow> nat \<Rightarrow> window \<Rightarrow> exc + window" where
  "shrink cs num_terms window_size right w =
     (if w_unique w = num_terms then
        (if w_left w < length cs
         then shrink cs num_terms window_size right (shrink_step cs window_size right w)
         else Inl IndexError)
      else Inr w)"
  by pat_completeness auto
termination
  by (relation "measure (\<lambda>(cs, n, ws, r, w). length cs - w_left w)")
     (auto simp: shrink_step_def Let_def)

declare shrink.simps [simp del]

text \<open>The outer \<^verbatim>\<open>for right in range(len(candidates))\<close> loop.\<close>

fun window_loop :: "cand list \<Rightarrow> int \<Rightarrow> int \<Rightarrow> nat list \<Rightarrow> window \<Rightarrow> exc + window" where
  "window_loop cs num_terms window_size [] w = Inr w"
| "window_loop cs num_terms window_size (right # rest) w =
     (let stem_r = c_stem (cs ! right);
          unique = (if w_counts w stem_r = 0 then w_unique w + 1 else w_unique w);
          counts = (w_counts w)(stem_r := w_counts w stem_r + 1)
      in case shrink cs num_terms window_size right
                (w\<lparr>w_counts := counts, w_unique := unique\<rparr>) of
           Inl e \<Rightarrow> Inl e
         | Inr w' \<Rightarrow> window_loop cs num_terms window_size rest w')"

text \<open>The merge of the sorted spans; \<open>merged\<close> is never empty here.\<close>

fun merge_loop :: "(int \<times> int) list \<Rightarrow> (int \<times> int) list \<Rightarrow> (int \<times> int) list" where
  "merge_loop merged [] = merged"
| "merge_loop merged ((current_start, current_end) # rest) =
     (let (last_start, last_end) = last merged
      in if current_start \<le> last_end
         then merge_loop (butlast merged @ [(last_start, max last_end current_end)]) rest
         else merge_loop (merged @ [(current_start, current_end)]) rest)"

definition find_fts_matches ::
  "(string \<Rightarrow> string) \<Rightarrow> string \<Rightarrow> string \<Rightarrow> int \<Rightarrow> exc + (int \<times> int) list" where
  "find_fts_matches stem text query window_size =
     (let qs = query_stems stem query;
          num_terms = int (length qs);
          cs = candidates stem qs text
      in case window_loop cs num_terms window_size [0 ..< length cs]
                \<lparr>w_results = [], w_counts = (\<lambda>s. 0), w_unique = 0, w_left = 0\<rparr> of
           Inl e \<Rightarrow> Inl e
         | Inr w \<Rightarrow>
             (if w_results w = [] then Inr []
              else (let results = sort (w_results w)
                    in Inr (merge_loop [hd results] (tl results)))))"


text \<open>
  The invariant of the window between candidates \<open>left\<close> and \<open>k\<close>: the counts are the
  occurrences of each stem in it and \<open>unique\<close> is the number of distinct stems.
\<close>

definition stems_in :: "cand list \<Rightarrow> nat \<Rightarrow> nat \<Rightarrow> string list" where
  "stems_in cs l k = map c_stem (drop l (take k cs))"

definition win_inv :: "cand list \<Rightarrow> nat \<Rightarrow> window \<Rightarrow> bool" where
  "win_inv cs k w =
     (w_left w \<le> k \<and> k \<le> length cs
      \<and> (\<forall>s. w_counts w s = int (count_list (stems_in cs (w_left w) k) s))
      \<and> w_unique w = int (card (set (stems_in cs (w_left w) k))))"




section \<open>Search result cache (logic/__init__.py)\<close>

text \<open>How Python prints an integer and the message of an exception.\<close>

definition digit_char :: "nat \<Rightarrow> char" where
  "digit_char d = ''0123456789'' ! d"

function show_nat :: "nat \<Rightarrow> string" where
  "show_nat n = (if n < 10 then [digit_char n] else show_nat (n div 10) @ [digit_char (n mod 10)])"
  by pat_completeness auto
termination
  by (relation "measure id") auto

declare show_nat.simps [simp del]

definition show_int :: "int \<Rightarrow> string" where
  "show_int i = (if i < 0 then CHR ''-'' # show_nat (nat (- i)) else show_nat (nat i))"

fun exc_msg :: "exc \<Rightarrow> string" where
  "exc_msg (ValueError m) = m"
| "exc_msg (TypeError m) = m"
| "exc_msg (PermissionError m) = m"
| "exc_msg (RuntimeError m) = m"
| "exc_msg IndexError = ''list index out of range''"
| "exc_msg (OtherException m) = m"

text \<open>
  A Python dict as an association list in insertion order: assigning to a key that is
  present keeps its place, a new key goes to the end.
\<close>

fun dict_set :: "('k \<times> 'v) list \<Rightarrow> 'k \<Rightarrow> 'v \<Rightarrow> ('k \<times> 'v) list" where
  "dict_set [] k v = [(k, v)]"
| "dict_set ((k', v') # rest) k v =
     (if k' = k then (k, v) # rest else (k', v') # dict_set rest k v)"

definition dict_del :: "('k \<times> 'v) list \<Rightarrow> 'k \<Rightarrow> ('k \<times> 'v) list" where
  "dict_del d k = filter (\<lambda>kv. fst kv \<noteq> k) d"

record hit =
  h_start :: int
  h_length :: int
  h_text :: string
  h_match_in_text :: "int \<times> int"

record cache_entry =
  ce_timestamp :: real
  ce_results :: "hit list"

type_synonym cache_key = "string option \<times> int \<times> string"

type_synonym search_cache = "(cache_key \<times> cache_entry) list"

definition MAX_CACHE_SIZE :: nat where
  "MAX_CACHE_SIZE = 50"

definition CACHE_TTL_SECONDS :: real where
  "CACHE_TTL_SECONDS = 30 * 60"

definition purge_search_cache :: "real \<Rightarrow> search_cache \<Rightarrow> search_cache" where
  "purge_search_cache now cache =
     filter (\<lambda>(k, v). \<not> (now - ce_timestamp v > CACHE_TTL_SECONDS)) cache"

definition snippet_padding :: int where
  "snippet_padding = 100"

definition make_hit :: "string \<Rightarrow> int \<times> int \<Rightarrow> hit" where
  "make_hit full_text sp =
     (let start = fst sp; stop = snd sp;
          snippet_start = max 0 (start - snippet_padding);
          snippet_end = min (int (length full_text)) (stop + snippet_padding);
          snippet = py_slice full_text snippet_start snippet_end
      in \<lparr>h_start = start, h_length = stop - start, h_text = snippet,
          h_match_in_text = (start - snippet_start, stop - snippet_start)\<rparr>)"

text \<open>
  The insertion of a new entry: at capacity, the keys are sorted by timestamp (a stable
  sort) and the first one is deleted; then the entry is stored.
\<close>

definition cache_store :: "search_cache \<Rightarrow> cache_key \<Rightarrow> cache_entry \<Rightarrow> search_cache" where
  "cache_store cache cache_key cached_data =
     (let cache1 =
        (if length cache \<ge> MAX_CACHE_SIZE
         then (let sorted_keys = map fst (sort_key (\<lambda>kv. ce_timestamp (snd kv)) cache)
               in dict_del cache (hd sorted_keys))
         else cache)
      in dict_set cache1 cache_key cached_data)"

record search_response =
  sr_book_id :: int
  sr_query :: string
  sr_total_results :: int
  sr_offset :: int
  sr_limit :: int
  sr_results :: "hit list"

text \<open>The end of the operation: the page of results, and the purge of expired entries.\<close>

definition search_finish ::
  "real \<Rightarrow> search_cache \<Rightarrow> cache_entry \<Rightarrow> int \<Rightarrow> string \<Rightarrow> int \<Rightarrow> int
     \<Rightarrow> (exc + search_response) \<times> search_cache" where
  "search_finish now_purge cache cached_data book_id query hit_limit offset =
     (let all_results = ce_results cached_data;
          paged_results = py_slice all_results offset (offset + hit_limit)
      in (Inr \<lparr>sr_book_id = book_id, sr_query = query,
                sr_total_results = int (length all_results), sr_offset = offset,
                sr_limit = hit_limit, sr_results = paged_results\<rparr>,
          purge_search_cache now_purge cache))"

text \<open>
  The operation with the cache as explicit state. \<open>rpc_result\<close> is the outcome of the
  \<^verbatim>\<open>get_book_content\<close> call made on a miss: an exception, a reply without content
  (\<open>None\<close>) or the full text. \<open>now\<close> is the clock reading taken for the entry's
  timestamp and \<open>now_purge\<close> the later reading of the purge. The library's convert grant
  only goes into the parameters of the call.
\<close>

definition search_book_content_impl ::
  "(string \<Rightarrow> string) \<Rightarrow> (exc + string option) \<Rightarrow> real \<Rightarrow> real \<Rightarrow> search_cache
     \<Rightarrow> int \<Rightarrow> string \<Rightarrow> int \<Rightarrow> int \<Rightarrow> string option
     \<Rightarrow> (exc + search_response) \<times> search_cache" where
  "search_book_content_impl stem rpc_result now now_purge cache book_id query hit_limit offset
       library_name =
     (let cache_key = (library_name, book_id, query)
      in case map_of cache cache_key of
           Some cached_data \<Rightarrow>
             (let refreshed = cached_data\<lparr>ce_timestamp := now\<rparr>
              in search_finish now_purge (dict_set cache cache_key refreshed) refreshed
                   book_id query hit_limit offset)
         | None \<Rightarrow>
             (case rpc_result of
                Inl e \<Rightarrow> (Inl e, cache)
              | Inr None \<Rightarrow>
                  (Inl (RuntimeError (''Could not retrieve content for book '' @ show_int book_id
                          @ ''. Ensure it exists and is convertible to TXT.'')), cache)
              | Inr (Some full_text) \<Rightarrow>
                  (case find_fts_matches stem full_text query 500 of
                     Inl e \<Rightarrow>
                       (Inl (RuntimeError (''Search processing failed: '' @ exc_msg e)), cache)
                   | Inr spans \<Rightarrow>
                       (let cached_data = \<lparr>ce_timestamp = now,
                                            ce_results = map (make_hit full_text) spans\<rparr>
                        in search_finish now_purge (cache_store cache cache_key cached_data)
                             cached_data book_id query hit_limit offset))))"

text \<open>The entry a capacity eviction removes: the first of those with the least timestamp.\<close>

definition oldest :: "search_cache \<Rightarrow> cache_key \<times> cache_entry" where
  "oldest cache = hd (sort_key (\<lambda>kv. ce_timestamp (snd kv)) cache)"

text \<open>
  A full cache for the examples: fifty entries for the books 1 to 50 of the default
  library, inserted in this order, each stamped with its book number.
\<close>

definition example_cache :: search_cache where
  "example_cache =
     map (\<lambda>i. ((None, int i, ''q''), \<lparr>ce_timestamp = real i, ce_results = []\<rparr>)) [1 ..< 51]"

section \<open>Metadata validation (logic/metadata_ops.py)\<close>

text \<open>
  The builtins of the Python runtime and of dateutil that the validator calls: \<^verbatim>\<open>str\<close>,
  \<^verbatim>\<open>int\<close>, \<^verbatim>\<open>float\<close> and \<^verbatim>\<open>dateutil.parser.parse\<close> followed by
  \<^verbatim>\<open>isoformat\<close>. Each conversion returns its value or the exception it raises.
\<close>

record py_builtins =
  py_str :: "pyval \<Rightarrow> string"
  py_int :: "pyval \<Rightarrow> exc + int"
  py_float :: "pyval \<Rightarrow> exc + pyfloat"
  dateutil_parse :: "string \<Rightarrow> exc + string"

text \<open>\<^verbatim>\<open>value if isinstance(value, str) else str(value)\<close>, also what an f-string prints.\<close>

definition to_str :: "py_builtins \<Rightarrow> pyval \<Rightarrow> string" where
  "to_str B v = (case v of PStr s \<Rightarrow> s | _ \<Rightarrow> py_str B v)"

fun type_name :: "pyval \<Rightarrow> string" where
  "type_name PNone = ''NoneType''"
| "type_name (PBool b) = ''bool''"
| "type_name (PInt i) = ''int''"
| "type_name (PFloat f) = ''float''"
| "type_name (PStr s) = ''str''"
| "type_name (PList xs) = ''list''"
| "type_name (PDict kvs) = ''dict''"
| "type_name (PDatetime d) = ''datetime''"

text \<open>\<^verbatim>\<open>a != b\<close> on floats: NaN differs from everything, itself included.\<close>

definition float_ne :: "pyfloat \<Rightarrow> pyfloat \<Rightarrow> bool" where
  "float_ne a b = (a = NaN \<or> b = NaN \<or> a \<noteq> b)"

text \<open>The handlers \<^verbatim>\<open>except (ValueError, TypeError)\<close> catch these two only.\<close>

fun value_or_type_error :: "exc \<Rightarrow> bool" where
  "value_or_type_error (ValueError m) = True"
| "value_or_type_error (TypeError m) = True"
| "value_or_type_error e = False"

text \<open>\<^verbatim>\<open>s.split(sep)\<close> for a non-empty separator; \<open>cur\<close> is the item being read.\<close>

function split_sep :: "string \<Rightarrow> string \<Rightarrow> string \<Rightarrow> string list" where
  "split_sep sep cur [] = [cur]"
| "split_sep sep cur (c # cs) =
     (if sep \<noteq> [] \<and> startswith (c # cs) sep
      then cur # split_sep sep [] (drop (length sep) (c # cs))
      else split_sep sep (cur @ [c]) cs)"
  by pat_completeness auto
termination
  by (relation "measure (\<lambda>(sep, cur, rest). length rest)") auto

definition str_split :: "string \<Rightarrow> string \<Rightarrow> string list" where
  "str_split s sep = split_sep sep [] s"

definition count_char :: "string \<Rightarrow> char \<Rightarrow> nat" where
  "count_char s c = length (filter (\<lambda>x. x = c) s)"

text \<open>\<^verbatim>\<open>s.rfind(c)\<close>: the index of the last occurrence, or -1.\<close>

definition rfind_char :: "string \<Rightarrow> char \<Rightarrow> int" where
  "rfind_char s c =
     (case find (\<lambda>i. s ! i = c) (rev [0 ..< length s]) of
        Some i \<Rightarrow> int i
      | None \<Rightarrow> - 1)"

text \<open>
  The rest of the bracket pattern after the lazy first group: \<^verbatim>\<open>\s*\[([^\]]+)\]$\<close>.
  The white space is skipped, a bracket opens, the index runs to the first closing
  bracket and is not empty, and the string ends there or before one final newline.
\<close>

definition bracket_tail :: "string \<Rightarrow> string option" where
  "bracket_tail rest =
     (case dropWhile is_space rest of
        [] \<Rightarrow> None
      | c # r1 \<Rightarrow>
          if c \<noteq> CHR ''['' then None
          else (let idx = takeWhile (\<lambda>x. x \<noteq> CHR '']'') r1;
                    r2 = dropWhile (\<lambda>x. x \<noteq> CHR '']'') r1
                in if idx = [] then None
                   else (case r2 of
                           [] \<Rightarrow> None
                         | b # r3 \<Rightarrow> if r3 = [] \<or> r3 = [CHR 0x0A] then Some idx else None)))"

text \<open>
  \<^verbatim>\<open>re.match(r'^(.*?)\s*\[([^\]]+)\]$', s)\<close>: the first group is the shortest prefix
  without a newline after which the rest of the pattern matches.
\<close>

fun bracket_match :: "string \<Rightarrow> string \<Rightarrow> (string \<times> string) option" where
  "bracket_match g1 [] = (case bracket_tail [] of Some idx \<Rightarrow> Some (g1, idx) | None \<Rightarrow> None)"
| "bracket_match g1 (c # cs) =
     (case bracket_tail (c # cs) of
        Some idx \<Rightarrow> Some (g1, idx)
      | None \<Rightarrow> if c = CHR 0x0A then None else bracket_match (g1 @ [c]) cs)"

definition normalize_series_field ::
  "py_builtins \<Rightarrow> string \<Rightarrow> exc + (string \<times> pyfloat option)" where
  "normalize_series_field B series_input0 =
     (let series_input = strip series_input0
      in if CHR ''['' \<notin> set series_input \<and> CHR '']'' \<notin> set series_input
         then Inr (series_input, None)
         else if count_char series_input CHR ''['' \<noteq> 1 \<or> count_char series_input CHR '']'' \<noteq> 1
         then Inl (ValueError (''Invalid series format: multiple bracket pairs found in ''
                     @ quoted series_input))
         else (case bracket_match [] series_input of
                 None \<Rightarrow> Inl (ValueError (''Invalid series format: brackets must be at the end in ''
                            @ quoted series_input))
               | Some (g1, index_str) \<Rightarrow>
                   (let series_name = rstrip g1
                    in if count_char series_input CHR '']'' > 0
                          \<and> rfind_char series_input CHR '']'' \<noteq> int (length series_input) - 1
                       then Inl (ValueError
                              (''Invalid series format: content found after closing bracket in ''
                                 @ quoted series_input))
                       else (case py_float B (PStr index_str) of
                               Inr series_index \<Rightarrow> Inr (series_name, Some series_index)
                             | Inl (ValueError m) \<Rightarrow>
                                 Inl (ValueError (''Invalid series index: '' @ quoted index_str
                                        @ '' is not a valid number in '' @ quoted series_input))
                             | Inl e \<Rightarrow> Inl e))))"

text \<open>
  A schema entry as the worker sends it: the datatype tag, the separator of a
  multi-valued text field, and the allowed values of an enumeration.
\<close>

record schema_entry =
  se_datatype :: "string option"
  se_separator :: "string option"
  se_allowed_values :: "string list"

type_synonym schema = "(string \<times> schema_entry) list"

type_synonym changes = "(string \<times> pyval) list"

text \<open>The state of the validation loop: the normalized changes and the error messages.\<close>

type_synonym vstate = "changes \<times> string list"

definition set_norm :: "string \<Rightarrow> pyval \<Rightarrow> vstate \<Rightarrow> vstate" where
  "set_norm field_name v st = (dict_set (fst st) field_name v, snd st)"

definition add_error :: "string \<Rightarrow> vstate \<Rightarrow> vstate" where
  "add_error msg st = (fst st, snd st @ [msg])"

text \<open>The outer handler \<^verbatim>\<open>except Exception as e\<close> of the loop body.\<close>

definition unexpected :: "string \<Rightarrow> exc \<Rightarrow> vstate \<Rightarrow> vstate" where
  "unexpected field_name e st =
     add_error (''Field '' @ quoted field_name @ '': unexpected error during validation: ''
                  @ exc_msg e @ ''.'') st"

definition validate_text ::
  "py_builtins \<Rightarrow> schema_entry \<Rightarrow> string \<Rightarrow> pyval \<Rightarrow> vstate \<Rightarrow> vstate" where
  "validate_text B field_schema field_name v st =
     (if field_name = ''identifiers'' then
        (case v of
           PDict d \<Rightarrow> set_norm field_name v st
         | _ \<Rightarrow> add_error (''Field '' @ quoted field_name @ '': expected dictionary, got ''
                            @ type_name v @ ''.'') st)
      else
        (case se_separator field_schema of
           None \<Rightarrow> set_norm field_name (PStr (to_str B v)) st
         | Some separator \<Rightarrow>
             if separator = [] then set_norm field_name (PStr (to_str B v)) st
             else (case v of
                     PStr str \<Rightarrow>
                       set_norm field_name
                         (PList (map PStr (filter (\<lambda>item. item \<noteq> [])
                                   (map strip (str_split str separator))))) st
                   | PList items \<Rightarrow>
                       set_norm field_name
                         (PList (map PStr (filter (\<lambda>item. item \<noteq> [])
                                   (map (\<lambda>item. strip (to_str B item)) items)))) st
                   | _ \<Rightarrow>
                       add_error (''Field '' @ quoted field_name
                          @ '' (text with separator): expected string or list, got ''
                          @ type_name v @ ''.'') st)))"

definition validate_series ::
  "py_builtins \<Rightarrow> changes \<Rightarrow> string \<Rightarrow> pyval \<Rightarrow> vstate \<Rightarrow> vstate" where
  "validate_series B chs field_name v0 st =
     (let v = to_str B v0
      in case normalize_series_field B v of
           Inl (ValueError m) \<Rightarrow>
             add_error (''Field '' @ quoted field_name @ '' (series): '' @ m) st
         | Inl e \<Rightarrow> unexpected field_name e st
         | Inr (s_name, s_index) \<Rightarrow>
             (let st1 = set_norm field_name (PStr s_name) st
              in case s_index of
                   None \<Rightarrow> st1
                 | Some idx \<Rightarrow>
                     (let index_field = field_name @ ''_index''
                      in case map_of chs index_field of
                           None \<Rightarrow> set_norm index_field (PFloat idx) st1
                         | Some given \<Rightarrow>
                             (case py_float B given of
                                Inr provided_index \<Rightarrow>
                                  if float_ne provided_index idx
                                  then add_error
                                         (''Field '' @ quoted field_name @ '': series string ''
                                            @ quoted v @ '' implies index '' @ py_str B (PFloat idx)
                                            @ '', but '' @ quoted index_field
                                            @ '' is also provided with a different value of ''
                                            @ py_str B (PFloat provided_index) @ ''.'') st1
                                  else st1
                              | Inl e \<Rightarrow>
                                  if value_or_type_error e then st1
                                  else unexpected field_name e st1))))"

definition validate_rating :: "py_builtins \<Rightarrow> string \<Rightarrow> pyval \<Rightarrow> vstate \<Rightarrow> vstate" where
  "validate_rating B field_name v st =
     (case py_int B v of
        Inr rating_val \<Rightarrow>
          if rating_val < 0 \<or> rating_val > 10
          then add_error (''Field '' @ quoted field_name
                 @ '' (rating): value must be between 0 and 10, got '' @ show_int rating_val
                 @ ''.'') st
          else set_norm field_name (PInt rating_val) st
      | Inl e \<Rightarrow>
          if value_or_type_error e
          then add_error (''Field '' @ quoted field_name @ '' (rating): expected integer 0-10, got ''
                 @ type_name v @ '' '' @ quoted (to_str B v) @ ''.'') st
          else unexpected field_name e st)"

definition validate_datetime :: "py_builtins \<Rightarrow> string \<Rightarrow> pyval \<Rightarrow> vstate \<Rightarrow> vstate" where
  "validate_datetime B field_name v st =
     (case v of
        PStr str \<Rightarrow>
          (case dateutil_parse B str of
             Inr isotext \<Rightarrow> set_norm field_name (PStr isotext) st
           | Inl e \<Rightarrow>
               if value_or_type_error e
               then add_error (''Field '' @ quoted field_name @ '' (datetime): unable to parse ''
                      @ quoted str @ '' as a date/time: '' @ exc_msg e @ ''.'') st
               else unexpected field_name e st)
      | PDatetime isotext \<Rightarrow> set_norm field_name (PStr isotext) st
      | _ \<Rightarrow> add_error (''Field '' @ quoted field_name
                 @ '' (datetime): expected string or datetime object, got '' @ type_name v
                 @ ''.'') st)"

definition validate_int :: "py_builtins \<Rightarrow> string \<Rightarrow> pyval \<Rightarrow> vstate \<Rightarrow> vstate" where
  "validate_int B field_name v st =
     (case py_int B v of
        Inr i \<Rightarrow> set_norm field_name (PInt i) st
      | Inl e \<Rightarrow>
          if value_or_type_error e
          then add_error (''Field '' @ quoted field_name @ '' (int): expected integer, got ''
                 @ type_name v @ '' '' @ quoted (to_str B v) @ ''.'') st
          else unexpected field_name e st)"

definition validate_float :: "py_builtins \<Rightarrow> string \<Rightarrow> pyval \<Rightarrow> vstate \<Rightarrow> vstate" where
  "validate_float B field_name v st =
     (case py_float B v of
        Inr f \<Rightarrow> set_norm field_name (PFloat f) st
      | Inl e \<Rightarrow>
          if value_or_type_error e
          then add_error (''Field '' @ quoted field_name @ '' (float): expected number, got ''
                 @ type_name v @ '' '' @ quoted (to_str B v) @ ''.'') st
          else unexpected field_name e st)"

definition validate_enumeration ::
  "py_builtins \<Rightarrow> schema_entry \<Rightarrow> string \<Rightarrow> pyval \<Rightarrow> vstate \<Rightarrow> vstate" where
  "validate_enumeration B field_schema field_name v st =
     (let allowed_values = se_allowed_values field_schema
      in if v = PStr [] \<or> v \<in> PStr ` set allowed_values
         then set_norm field_name v st
         else add_error (''Field '' @ quoted field_name @ '' (enumeration): value ''
                @ quoted (to_str B v) @ '' not in allowed values ''
                @ py_str B (PList (map PStr allowed_values))
                @ ''. Empty string is also allowed.'') st)"

definition validate_bool :: "string \<Rightarrow> pyval \<Rightarrow> vstate \<Rightarrow> vstate" where
  "validate_bool field_name v st =
     (case v of
        PBool b \<Rightarrow> set_norm field_name v st
      | PNone \<Rightarrow> set_norm field_name PNone st
      | PStr str \<Rightarrow>
          (let lower_val = strip (str_lower str)
           in if lower_val \<in> {''true'', ''yes'', ''1''} then set_norm field_name (PBool True) st
              else if lower_val \<in> {''false'', ''no'', ''0''}
              then set_norm field_name (PBool False) st
              else if lower_val \<in> {''none'', ''null'', []} then set_norm field_name PNone st
              else add_error (''Field '' @ quoted field_name
                     @ '' (bool): unable to convert string '' @ quoted str
                     @ '' to boolean. Use '' @ quoted ''true'' @ '', '' @ quoted ''false''
                     @ '', or '' @ quoted ''none'' @ ''.'') st)
      | _ \<Rightarrow> add_error (''Field '' @ quoted field_name
                 @ '' (bool): expected boolean, None, or string, got '' @ type_name v
                 @ ''.'') st)"

text \<open>How an f-string prints the datatype tag, which is None when the entry has none.\<close>

definition show_tag :: "string option \<Rightarrow> string" where
  "show_tag t = (case t of None \<Rightarrow> ''None'' | Some d \<Rightarrow> d)"

text \<open>The body of the loop over \<^verbatim>\<open>changes.items()\<close>, for one field.\<close>

definition validate_field ::
  "py_builtins \<Rightarrow> changes \<Rightarrow> schema \<Rightarrow> string \<times> pyval \<Rightarrow> vstate \<Rightarrow> vstate" where
  "validate_field B chs sch fv st =
     (let field_name = fst fv; v = snd fv
      in case map_of sch field_name of
           None \<Rightarrow> add_error (''Field '' @ quoted field_name
                      @ '' does not exist in the library schema.'') st
         | Some field_schema \<Rightarrow>
             (let datatype = se_datatype field_schema
              in if datatype = Some ''text'' then validate_text B field_schema field_name v st
                 else if datatype = Some ''series'' then validate_series B chs field_name v st
                 else if datatype = Some ''rating'' then validate_rating B field_name v st
                 else if datatype = Some ''datetime'' then validate_datetime B field_name v st
                 else if datatype = Some ''int'' then validate_int B field_name v st
                 else if datatype = Some ''float'' then validate_float B field_name v st
                 else if datatype = Some ''composite''
                 then add_error (''Field '' @ quoted field_name
                        @ '' is a composite field and cannot be written to.'') st
                 else if datatype = Some ''enumeration''
                 then validate_enumeration B field_schema field_name v st
                 else if datatype = Some ''comments''
                 then set_norm field_name (PStr (to_str B v)) st
                 else if datatype = Some ''bool'' then validate_bool field_name v st
                 else set_norm field_name v
                        (add_error (''Field '' @ quoted field_name @ '': unknown datatype ''
                           @ quoted (show_tag datatype)
                           @ '', passing value through without validation.'') st)))"

definition validate_and_normalize_changes ::
  "py_builtins \<Rightarrow> changes \<Rightarrow> schema \<Rightarrow> vstate" where
  "validate_and_normalize_changes B chs sch =
     foldl (\<lambda>st fv. validate_field B chs sch fv st) ([], []) chs"

text \<open>The ten datatype tags the validator knows.\<close>

definition known_datatypes :: "string list" where
  "known_datatypes = [''text'', ''series'', ''rating'', ''datetime'', ''int'', ''float'',
                      ''composite'', ''enumeration'', ''comments'', ''bool'']"

section \<open>Schema cache and book update (logic/metadata_ops.py)\<close>

text \<open>
  \<^verbatim>\<open>sep.join(items)\<close>, and how a set of names is printed; Python fixes no order for
  the elements of a set, the model prints them in the order of the list.
\<close>

fun str_join :: "string \<Rightarrow> string list \<Rightarrow> string" where
  "str_join sep [] = []"
| "str_join sep [x] = x"
| "str_join sep (x # y # r) = x @ sep @ str_join sep (y # r)"

definition show_set :: "string list \<Rightarrow> string" where
  "show_set xs = ''{'' @ str_join '', '' (map quoted xs) @ ''}''"

definition check_write_permission :: "lib_conf \<Rightarrow> string list option \<Rightarrow> exc + grant" where
  "check_write_permission lib_conf changes_keys =
     (let write_perm = lc_write lib_conf; lib_name = lc_name lib_conf
      in if \<not> grant_truthy write_perm
         then Inl (PermissionError (''Write access denied for library '' @ quoted lib_name @ ''.''))
         else (case (write_perm, changes_keys) of
                 (GList allowed, Some keys) \<Rightarrow>
                   (let allowed_fields = remdups allowed;
                        denied_fields = filter (\<lambda>k. k \<notin> set allowed) (remdups keys)
                    in if denied_fields \<noteq> []
                       then Inl (PermissionError
                              (''Write access denied for fields: '' @ show_set denied_fields
                                 @ '' in library '' @ quoted lib_name @ ''. Allowed: ''
                                 @ show_set allowed_fields))
                       else Inr write_perm)
               | _ \<Rightarrow> Inr write_perm))"

text \<open>
  The worker pool as the logic layer sees it. \<^verbatim>\<open>send_rpc\<close> first resolves the library
  (\<^verbatim>\<open>get_worker\<close> raises ValueError for an unknown one, and nothing is sent); then the
  call is dispatched, which the model records, and the backend answers with a result or
  an exception and moves to a new state. The reply to \<^verbatim>\<open>get_library_schema\<close> is a
  schema; the other replies are values.
\<close>

record 'w backend =
  be_schema :: "'w \<Rightarrow> string option \<Rightarrow> (exc + schema) \<times> 'w"
  be_call :: "'w \<Rightarrow> string option \<Rightarrow> string \<Rightarrow> pyval \<Rightarrow> (exc + pyval) \<times> 'w"

record 'w pool =
  p_world :: 'w
  p_calls :: "(string option \<times> string \<times> pyval) list"

definition not_configured :: "string option \<Rightarrow> exc" where
  "not_configured library_name =
     ValueError (''Library '' @ quoted (show_lib library_name) @ '' not found in configuration.'')"

definition send_rpc_schema ::
  "config \<Rightarrow> 'w backend \<Rightarrow> 'w pool \<Rightarrow> string option \<Rightarrow> (exc + schema) \<times> 'w pool" where
  "send_rpc_schema cm be p library_name =
     (case get_library_config cm library_name of
        None \<Rightarrow> (Inl (not_configured library_name), p)
      | Some lib_conf \<Rightarrow>
          (let (r, w) = be_schema be (p_world p) library_name
           in (r, \<lparr>p_world = w,
                    p_calls = p_calls p @ [(library_name, ''get_library_schema'', PDict [])]\<rparr>)))"

definition send_rpc ::
  "config \<Rightarrow> 'w backend \<Rightarrow> 'w pool \<Rightarrow> string option \<Rightarrow> string \<Rightarrow> pyval
     \<Rightarrow> (exc + pyval) \<times> 'w pool" where
  "send_rpc cm be p library_name method params =
     (case get_library_config cm library_name of
        None \<Rightarrow> (Inl (not_configured library_name), p)
      | Some lib_conf \<Rightarrow>
          (let (r, w) = be_call be (p_world p) library_name method params
           in (r, \<lparr>p_world = w, p_calls = p_calls p @ [(library_name, method, params)]\<rparr>)))"

text \<open>
  The process-wide state of the logic layer: the pool and the schema cache
  \<^verbatim>\<open>_library_schemata\<close>, keyed by the library name as the caller passed it.
\<close>

record 'w sys =
  s_pool :: "'w pool"
  s_schemata :: "(string option \<times> schema) list"

definition grant_fields :: "grant \<Rightarrow> string list" where
  "grant_fields g = (case g of GList fs \<Rightarrow> fs | _ \<Rightarrow> [])"

definition get_library_schema_impl ::
  "config \<Rightarrow> 'w backend \<Rightarrow> 'w sys \<Rightarrow> string option \<Rightarrow> (exc + schema) \<times> 'w sys" where
  "get_library_schema_impl cm be st library_name =
     (case map_of (s_schemata st) library_name of
        Some cached \<Rightarrow> (Inr cached, st)
      | None \<Rightarrow>
          (case send_rpc_schema cm be (s_pool st) library_name of
             (Inl e, p) \<Rightarrow> (Inl e, st\<lparr>s_pool := p\<rparr>)
           | (Inr sch, p) \<Rightarrow>
               (let st1 = st\<lparr>s_pool := p\<rparr>;
                    keep_all = (Inr sch, st1\<lparr>s_schemata := dict_set (s_schemata st1) library_name sch\<rparr>)
                in case get_library_config cm library_name of
                     None \<Rightarrow> keep_all
                   | Some lib_conf \<Rightarrow>
                       if lc_read lib_conf \<noteq> GBool True \<and> lc_write lib_conf \<noteq> GBool True
                       then (let allowed_cols = set (grant_fields (lc_read lib_conf))
                                                  \<union> set (grant_fields (lc_write lib_conf));
                                 filtered_schema = filter (\<lambda>(k, v). k \<in> allowed_cols) sch
                             in (Inr filtered_schema,
                                 st1\<lparr>s_schemata :=
                                       dict_set (s_schemata st1) library_name filtered_schema\<rparr>))
                       else keep_all)))"

definition validation_message :: "string list \<Rightarrow> string" where
  "validation_message validation_errors =
     ''Validation errors occurred:'' @ [CHR 0x0A]
       @ str_join [CHR 0x0A] (map (\<lambda>err. ''  - '' @ err) validation_errors)"

definition update_book_impl ::
  "py_builtins \<Rightarrow> config \<Rightarrow> 'w backend \<Rightarrow> 'w sys \<Rightarrow> int \<Rightarrow> changes \<Rightarrow> string option
     \<Rightarrow> (exc + pyval) \<times> 'w sys" where
  "update_book_impl B cm be st book_id chs library_name =
     (case get_lib_conf cm library_name of
        Inl e \<Rightarrow> (Inl e, st)
      | Inr lib_conf \<Rightarrow>
          (case check_write_permission lib_conf (Some (map fst chs)) of
             Inl e \<Rightarrow> (Inl e, st)
           | Inr g \<Rightarrow>
               (case get_library_schema_impl cm be st library_name of
                  (Inl e, st1) \<Rightarrow> (Inl e, st1)
                | (Inr sch, st1) \<Rightarrow>
                    (let (normalized_changes, validation_errors) =
                           validate_and_normalize_changes B chs sch
                     in if validation_errors \<noteq> []
                        then (Inl (ValueError (validation_message validation_errors)), st1)
                        else (case send_rpc cm be (s_pool st1) library_name ''update_book''
                                     (PDict [(''book_id'', PInt book_id),
                                             (''changes'', PDict normalized_changes)]) of
                                (r, p) \<Rightarrow> (r, st1\<lparr>s_pool := p\<rparr>))))))"

text \<open>The calls of one method in the log of the pool.\<close>

definition calls_of :: "string \<Rightarrow> 'w sys \<Rightarrow> (string option \<times> string \<times> pyval) list" where
  "calls_of method st = filter (\<lambda>(l, m, ps). m = method) (p_calls (s_pool st))"

section \<open>Worker pool (worker_pool.py)\<close>

text \<open>
  A worker process as the pool sees it: whether it still runs (\<^verbatim>\<open>poll()\<close> is None),
  whether its input still takes a write (otherwise BrokenPipeError), and the lines it
  writes to its output before that stream closes.
\<close>

record proc =
  pr_pid :: nat
  pr_running :: bool
  pr_stdin_open :: bool
  pr_stdout :: "string list"

record stats =
  last_used :: real
  active_requests :: int

record worker_pool =
  workers :: "(string \<times> proc) list"
  worker_stderr_files :: "(string \<times> string) list"
  worker_stats :: "(string \<times> stats) list"
  request_id_counter :: int



definition bump_stats :: "real \<Rightarrow> int \<Rightarrow> string \<Rightarrow> worker_pool \<Rightarrow> worker_pool" where
  "bump_stats now d name pool =
     (case map_of (worker_stats pool) name of
        None \<Rightarrow> pool
      | Some st \<Rightarrow>
          pool\<lparr>worker_stats :=
                 dict_set (worker_stats pool) name
                   \<lparr>last_used = now, active_requests = active_requests st + d\<rparr>\<rparr>)"

















section \<open>Example data\<close>

text \<open>
  A stand-in for the builtins on the few values the examples use, a schema with one field
  of an unknown datatype, a configuration with two libraries whose default grants everything, and a
  backend that serves this schema and accepts every call.
\<close>

definition example_builtins :: py_builtins where
  "example_builtins =
     \<lparr>py_str = (\<lambda>v. case v of
                       PInt i \<Rightarrow> show_int i
                     | PFloat f \<Rightarrow> (if f = Fin 3 then ''3.0'' else if f = Fin 4 then ''4.0''
                                    else ''float'')
                     | _ \<Rightarrow> ''object''),
      py_int = (\<lambda>v. case v of
                       PInt i \<Rightarrow> Inr i
                     | PBool b \<Rightarrow> Inr (if b then 1 else 0)
                     | PStr s \<Rightarrow> Inl (ValueError (''invalid literal for int() with base 10: ''
                                         @ quoted s))
                     | _ \<Rightarrow> Inl (TypeError ''int() argument must be a string or a number'')),
      py_float = (\<lambda>v. case v of
                         PInt i \<Rightarrow> Inr (Fin (of_int i))
                       | PFloat f \<Rightarrow> Inr f
                       | PStr s \<Rightarrow> (if s = ''3'' then Inr (Fin 3)
                                    else Inl (ValueError (''could not convert string to float: ''
                                                @ quoted s)))
                       | _ \<Rightarrow> Inl (TypeError ''float() argument must be a string or a number'')),
      dateutil_parse = (\<lambda>s. Inl (ValueError (''Unknown string format: '' @ s)))\<rparr>"

definition plain_entry :: "string \<Rightarrow> schema_entry" where
  "plain_entry tag = \<lparr>se_datatype = Some tag, se_separator = None, se_allowed_values = []\<rparr>"

definition example_schema :: schema where
  "example_schema =
     [(''series'', plain_entry ''series''), (''series_index'', plain_entry ''float''),
      (''rating'', plain_entry ''rating''), (''comments'', plain_entry ''comments''),
      (''odd'', plain_entry ''mystery'')]"

definition example_config :: config where
  "example_config =
     [(''main'', \<lparr>le_default = True, le_read = GBool True, le_write = GBool True,
                  le_convert = False\<rparr>),
      (''other'', \<lparr>le_default = False, le_read = GList [''title''], le_write = GBool False,
                   le_convert = False\<rparr>)]"

definition example_backend :: "unit backend" where
  "example_backend =
     \<lparr>be_schema = (\<lambda>w l. (Inr example_schema, w)),
      be_call = (\<lambda>w l m ps. (Inr (PStr ''ok''), w))\<rparr>"

definition empty_sys :: "unit sys" where
  "empty_sys = \<lparr>s_pool = \<lparr>p_world = (), p_calls = []\<rparr>, s_schemata = []\<rparr>"









text \<open>The state after the schema of the example backend was fetched under one name.\<close>

definition fetched_sys :: "string option \<Rightarrow> unit sys" where
  "fetched_sys lib =
     \<lparr>s_pool = \<lparr>p_world = (), p_calls = [(lib, ''get_library_schema'', PDict [])]\<rparr>,
      s_schemata = [(lib, example_schema)]\<rparr>"

section \<open>Properties\<close>

lemma startswith_iff: "startswith s p \<longleftrightarrow> (\<exists>r. s = p @ r)"
  by (induction s p rule: startswith.induct) auto

lemma boundary_iff:
  "startswith c r \<and> at_boundary os c r \<longleftrightarrow> under_root os c r"
proof
  assume h: "startswith c r \<and> at_boundary os c r"
  then obtain t where t: "c = r @ t" by (auto simp: startswith_iff)
  show "under_root os c r"
  proof (cases t)
    case Nil
    with t show ?thesis by (simp add: under_root_def)
  next
    case (Cons x xs)
    with t h have "x = os_sep os \<or> x = CHR ''/''"
      by (auto simp: at_boundary_def nth_append split: if_splits)
    with t Cons show ?thesis by (auto simp: under_root_def)
  qed
next
  assume "under_root os c r"
  then show "startswith c r \<and> at_boundary os c r"
    by (auto simp: under_root_def startswith_iff at_boundary_def nth_append)
qed

lemma allowed_loop_iff:
  "allowed_loop os a c ps = (if \<exists>p \<in> set ps. under_root os c (check_form os p)
                             then Some a else None)"
proof (induction ps)
  case Nil
  show ?case by simp
next
  case (Cons p ps)
  have "(startswith c (check_form os p) \<and> at_boundary os c (check_form os p))
          = under_root os c (check_form os p)"
    by (rule boundary_iff)
  with Cons show ?case
    by (simp add: check_form_def Let_def)
qed

text \<open>
  C5. The candidate and every allowed root are brought to absolute form (case-folded on
  Windows). The call returns the absolute candidate exactly when that form equals an
  allowed root or continues one with a path separator; otherwise it raises
  PermissionError, whose message names the path as it was passed. For an environment
  in which the three paths of the example are already absolute,
  \<^verbatim>\<open>/data/exports/out.epub\<close> is denied against \<^verbatim>\<open>[/data/export]\<close> and accepted
  against \<^verbatim>\<open>[/data/exports]\<close>.
\<close>

theorem validate_path_boundary:
  "validate_path_in_allowed os fp roots opn =
     (if \<exists>r \<in> set roots. under_root os (check_form os fp) (check_form os r)
      then Inr (os_abspath os fp)
      else Inl (PermissionError
             (opn @ '' denied. Path '' @ quoted fp @ '' is not in allowed_paths.'')))
   \<and> (os_abspath os ''/data/exports/out.epub'' = ''/data/exports/out.epub''
        \<and> os_abspath os ''/data/export'' = ''/data/export''
        \<and> os_abspath os ''/data/exports'' = ''/data/exports''
      \<longrightarrow> validate_path_in_allowed os ''/data/exports/out.epub'' [''/data/export''] opn
            = Inl (PermissionError (opn @ '' denied. Path '' @ quoted ''/data/exports/out.epub''
                                      @ '' is not in allowed_paths.''))
          \<and> validate_path_in_allowed os ''/data/exports/out.epub'' [''/data/exports''] opn
            = Inr ''/data/exports/out.epub'')"
proof (intro conjI impI)
  show "validate_path_in_allowed os fp roots opn =
     (if \<exists>r \<in> set roots. under_root os (check_form os fp) (check_form os r)
      then Inr (os_abspath os fp)
      else Inl (PermissionError
             (opn @ '' denied. Path '' @ quoted fp @ '' is not in allowed_paths.'')))"
    by (simp add: validate_path_in_allowed_def Let_def allowed_loop_iff check_form_def)
next
  assume h: "os_abspath os ''/data/exports/out.epub'' = ''/data/exports/out.epub''
        \<and> os_abspath os ''/data/export'' = ''/data/export''
        \<and> os_abspath os ''/data/exports'' = ''/data/exports''"
  have low: "str_lower ''/data/exports/out.epub'' = ''/data/exports/out.epub''"
    "str_lower ''/data/export'' = ''/data/export''"
    "str_lower ''/data/exports'' = ''/data/exports''"
    by (simp_all add: str_lower_def char_lower_def)
  show "validate_path_in_allowed os ''/data/exports/out.epub'' [''/data/export''] opn
            = Inl (PermissionError (opn @ '' denied. Path '' @ quoted ''/data/exports/out.epub''
                                      @ '' is not in allowed_paths.''))"
    using h by (simp add: validate_path_in_allowed_def Let_def low at_boundary_def os_sep_def)
  show "validate_path_in_allowed os ''/data/exports/out.epub'' [''/data/exports''] opn
            = Inr ''/data/exports/out.epub''"
    using h by (simp add: validate_path_in_allowed_def Let_def low at_boundary_def os_sep_def)
qed

theorem validate_path_boundary_witness:
  "validate_path_in_allowed \<lparr>os_abspath = (\<lambda>p. p), os_name_nt = False\<rparr>
      ''/data/exports/out.epub'' [''/data/export''] ''Export''
     = Inl (PermissionError
         (''Export denied. Path '' @ quoted ''/data/exports/out.epub''
            @ '' is not in allowed_paths.''))
   \<and> validate_path_in_allowed \<lparr>os_abspath = (\<lambda>p. p), os_name_nt = False\<rparr>
      ''/data/exports/out.epub'' [''/data/exports''] ''Export''
     = Inr ''/data/exports/out.epub''"
  using validate_path_boundary
    [of "\<lparr>os_abspath = (\<lambda>p. p), os_name_nt = False\<rparr>"
        "''/data/exports/out.epub''" "[''/data/export'']" "''Export''", THEN conjunct2]
  by simp

subsection \<open>Book details\<close>

text \<open>
  C9. When the library's read grant is a field list, the record returned by
  get-book-details is the backend record restricted to the keys of that list plus
  \<^verbatim>\<open>book_id\<close>: every other field is removed and the kept ones are unchanged. When the
  read grant is a boolean, the backend record is returned as it is.
\<close>

theorem get_book_details_filtered:
  assumes "get_library_config cm lib = Some conf"
  shows "(lc_read conf = GList fs \<longrightarrow>
           get_book_details_impl cm (Inr details) lib
             = Inr (filter (\<lambda>(k, v). k \<in> set fs \<union> {''book_id''}) details)
           \<and> (\<forall>r. get_book_details_impl cm (Inr details) lib = Inr r \<longrightarrow>
                  fst ` set r \<subseteq> set fs \<union> {''book_id''}
                  \<and> (\<forall>k v. (k, v) \<in> set r \<longleftrightarrow>
                        (k, v) \<in> set details \<and> (k \<in> set fs \<or> k = ''book_id''))))
     \<and> (lc_read conf = GBool b \<longrightarrow>
           get_book_details_impl cm (Inr details) lib = Inr details)"
  using assms by (auto simp: get_book_details_impl_def)

theorem get_book_details_filtered_witness:
  "get_book_details_impl
      [(''main'', \<lparr>le_default = True, le_read = GList [''title''], le_write = GBool False,
                   le_convert = False\<rparr>)]
      (Inr [(''book_id'', PInt 7), (''title'', PStr ''Dune''), (''comments'', PStr ''x'')])
      None
     = Inr [(''book_id'', PInt 7), (''title'', PStr ''Dune'')]"
proof -
  let ?cm = "[(''main'', \<lparr>le_default = True, le_read = GList [''title''],
                          le_write = GBool False, le_convert = False\<rparr>)]"
  have c: "get_library_config ?cm None
             = Some \<lparr>lc_name = ''main'', lc_read = GList [''title''], lc_write = GBool False,
                      lc_convert = False\<rparr>"
    by (simp add: get_library_config_def mk_conf_def)
  show ?thesis
    using get_book_details_filtered [OF c, of "[''title'']"
        "[(''book_id'', PInt 7), (''title'', PStr ''Dune''), (''comments'', PStr ''x'')]"
        True, THEN conjunct1]
    by simp
qed

subsection \<open>Field value counts\<close>







subsection \<open>Proximity search\<close>

lemma stems_in_head:
  assumes "l < k" "k \<le> length cs"
  shows "stems_in cs l k = c_stem (cs ! l) # stems_in cs (Suc l) k"
proof -
  have "l < length (take k cs)" using assms by simp
  then have "drop l (take k cs) = (take k cs) ! l # drop (Suc l) (take k cs)"
    by (rule Cons_nth_drop_Suc [symmetric])
  then show ?thesis using assms by (simp add: stems_in_def)
qed

lemma stems_in_snoc:
  assumes "l \<le> k" "k < length cs"
  shows "stems_in cs l (Suc k) = stems_in cs l k @ [c_stem (cs ! k)]"
  using assms by (simp add: stems_in_def take_Suc_conv_app_nth)

lemma stems_in_empty: "stems_in cs k k = []"
  by (simp add: stems_in_def)

lemma shrink_step_inv:
  assumes inv: "win_inv cs k w" and lt: "w_left w < k"
  shows "win_inv cs k (shrink_step cs ws right w)"
proof -
  let ?x = "c_stem (cs ! w_left w)"
  let ?rest = "stems_in cs (Suc (w_left w)) k"
  from inv have k: "k \<le> length cs" by (simp add: win_inv_def)
  have hd: "stems_in cs (w_left w) k = ?x # ?rest"
    using lt k by (rule stems_in_head)
  from inv hd have cnt: "\<And>s. w_counts w s = int (count_list (?x # ?rest) s)"
    by (simp add: win_inv_def)
  from inv hd have un: "w_unique w = int (card (set (?x # ?rest)))"
    by (simp add: win_inv_def)
  have c1: "\<And>s. ((w_counts w)(?x := w_counts w ?x - 1)) s = int (count_list ?rest s)"
    using cnt by simp
  have zero: "(w_counts w ?x - 1 = 0) = (?x \<notin> set ?rest)"
    using cnt [of ?x] by (simp add: count_list_0_iff)
  have u1: "(if w_counts w ?x - 1 = 0 then w_unique w - 1 else w_unique w)
              = int (card (set ?rest))"
  proof (cases "?x \<in> set ?rest")
    case True
    then show ?thesis using un zero by (simp add: insert_absorb)
  next
    case False
    then show ?thesis using un zero by simp
  qed
  show ?thesis
    using lt k c1 u1 by (simp add: win_inv_def shrink_step_def Let_def)
qed

lemma shrink_total:
  "1 \<le> num_terms \<Longrightarrow> win_inv cs k w
     \<Longrightarrow> \<exists>w'. shrink cs num_terms ws right w = Inr w' \<and> win_inv cs k w'"
proof (induction cs num_terms ws right w rule: shrink.induct)
  case (1 cs num_terms ws right w)
  show ?case
  proof (cases "w_unique w = num_terms")
    case False
    then show ?thesis using "1.prems" by (simp add: shrink.simps)
  next
    case True
    with "1.prems" have "stems_in cs (w_left w) k \<noteq> []"
      by (auto simp: win_inv_def)
    with "1.prems" have lt: "w_left w < k"
      by (cases "w_left w = k") (auto simp: win_inv_def stems_in_empty)
    with "1.prems" have len: "w_left w < length cs" by (simp add: win_inv_def)
    have "win_inv cs k (shrink_step cs ws right w)"
      using "1.prems"(2) lt by (rule shrink_step_inv)
    from "1.IH" [OF True len "1.prems"(1) this] show ?thesis
      using True len by (subst shrink.simps) simp
  qed
qed

lemma window_loop_total:
  "1 \<le> num_terms \<Longrightarrow> win_inv cs k w
     \<Longrightarrow> \<exists>w'. window_loop cs num_terms ws [k ..< length cs] w = Inr w'"
proof (induction "length cs - k" arbitrary: k w)
  case 0
  then have "length cs \<le> k" by simp
  then show ?case by simp
next
  case (Suc n)
  then have lt: "k < length cs" by simp
  let ?x = "c_stem (cs ! k)"
  let ?w1 = "w\<lparr>w_counts := (w_counts w)(?x := w_counts w ?x + 1),
               w_unique := (if w_counts w ?x = 0 then w_unique w + 1 else w_unique w)\<rparr>"
  from Suc.prems(2) have le: "w_left w \<le> k" by (simp add: win_inv_def)
  have sn: "stems_in cs (w_left w) (Suc k) = stems_in cs (w_left w) k @ [?x]"
    using le lt by (rule stems_in_snoc)
  have zero: "(w_counts w ?x = 0) = (?x \<notin> set (stems_in cs (w_left w) k))"
    using Suc.prems(2) by (simp add: win_inv_def count_list_0_iff)
  have inv1: "win_inv cs (Suc k) ?w1"
    using Suc.prems(2) lt le zero by (auto simp: win_inv_def sn insert_absorb)
  from shrink_total [OF Suc.prems(1) inv1, of ws k]
  obtain w2 where w2: "shrink cs num_terms ws k ?w1 = Inr w2" "win_inv cs (Suc k) w2"
    by blast
  have "n = length cs - Suc k" using Suc.hyps(2) by simp
  from Suc.hyps(1) [OF this Suc.prems(1) w2(2)]
  obtain w' where "window_loop cs num_terms ws [Suc k ..< length cs] w2 = Inr w'"
    by blast
  then show ?case
    using lt w2(1) by (simp add: upt_conv_Cons Let_def)
qed

lemma find_total: "\<exists>spans. find_fts_matches stem text query ws = Inr spans"
proof -
  let ?qs = "query_stems stem query"
  let ?cs = "candidates stem ?qs text"
  let ?w0 = "\<lparr>w_results = [], w_counts = (\<lambda>s. 0), w_unique = 0, w_left = 0\<rparr>"
  have "\<exists>w'. window_loop ?cs (int (length ?qs)) ws [0 ..< length ?cs] ?w0 = Inr w'"
  proof (cases "?cs = []")
    case True
    then show ?thesis by simp
  next
    case False
    then have "?qs \<noteq> []"
      by (auto simp: candidates_def filter_empty_conv)
    then have n: "1 \<le> int (length ?qs)"
      by (cases ?qs) auto
    have "win_inv ?cs 0 ?w0"
      by (simp add: win_inv_def stems_in_def)
    from window_loop_total [OF n this] show ?thesis .
  qed
  then obtain w' where "window_loop ?cs (int (length ?qs)) ws [0 ..< length ?cs] ?w0 = Inr w'"
    by blast
  then show ?thesis
    by (simp add: find_fts_matches_def Let_def)
qed




















subsection \<open>Search result cache\<close>

lemma oldest_min:
  assumes "cache \<noteq> []"
  shows "oldest cache \<in> set cache
         \<and> (\<forall>e \<in> set cache. ce_timestamp (snd (oldest cache)) \<le> ce_timestamp (snd e))"
proof -
  let ?f = "\<lambda>kv :: cache_key \<times> cache_entry. ce_timestamp (snd kv)"
  let ?s = "sort_key ?f cache"
  have ne: "?s \<noteq> []" using assms by (metis length_0_conv length_sort)
  then obtain x xs where s: "?s = x # xs" by (cases ?s) auto
  have "sorted (map ?f ?s)" by (rule sorted_sort_key)
  then have "\<forall>y \<in> set ?s. ?f x \<le> ?f y"
    unfolding s by auto
  moreover have "x \<in> set ?s" unfolding s by simp
  ultimately show ?thesis
    by (simp add: oldest_def s [symmetric] del: sort_key_simps) (simp add: s)
qed

lemma dict_set_new: "k \<notin> fst ` set d \<Longrightarrow> dict_set d k v = d @ [(k, v)]"
  by (induction d) auto

lemma dict_set_present:
  "k \<in> fst ` set d \<Longrightarrow> distinct (map fst d)
     \<Longrightarrow> dict_set d k v = map (\<lambda>(k', v'). if k' = k then (k, v) else (k', v')) d"
proof (induction d)
  case Nil
  then show ?case by simp
next
  case (Cons a d)
  obtain k' v' where a: "a = (k', v')" by (cases a)
  show ?case
  proof (cases "k' = k")
    case True
    with Cons.prems a have "k \<notin> fst ` set d" by auto
    then have "map (\<lambda>(k', v'). if k' = k then (k, v) else (k', v')) d = d"
      by (induction d) auto
    with True a show ?thesis by simp
  next
    case False
    with Cons a show ?thesis by auto
  qed
qed

lemma dict_del_remove1:
  "distinct (map fst d) \<Longrightarrow> x \<in> set d \<Longrightarrow> dict_del d (fst x) = remove1 x d"
proof (induction d)
  case Nil
  then show ?case by simp
next
  case (Cons a d)
  show ?case
  proof (cases "a = x")
    case True
    with Cons.prems have "fst x \<notin> fst ` set d" by auto
    then have "filter (\<lambda>kv. fst kv \<noteq> fst x) d = d"
      by (induction d) auto
    with True show ?thesis by (simp add: dict_del_def)
  next
    case False
    with Cons.prems have "x \<in> set d" by simp
    moreover from this Cons.prems have "fst a \<noteq> fst x" by (auto simp: image_iff)
    ultimately show ?thesis using Cons False by (simp add: dict_del_def)
  qed
qed

lemma purge_fresh:
  "\<forall>e \<in> set cache. now - ce_timestamp (snd e) \<le> CACHE_TTL_SECONDS
     \<Longrightarrow> purge_search_cache now cache = cache"
  by (induction cache) (auto simp: purge_search_cache_def)


lemma oldest_key_hd:
  "cache \<noteq> [] \<Longrightarrow> hd (map fst (sort_key (\<lambda>kv. ce_timestamp (snd kv)) cache)) = fst (oldest cache)"
proof -
  assume "cache \<noteq> []"
  then have "sort_key (\<lambda>kv. ce_timestamp (snd kv)) cache \<noteq> []"
    by (metis length_0_conv length_sort)
  then show ?thesis
    unfolding oldest_def by (rule hd_map)
qed

lemma cache_store_full:
  assumes dk: "distinct (map fst cache)" and len: "length cache = 50"
    and nk: "key \<notin> fst ` set cache"
  shows "cache_store cache key entry = remove1 (oldest cache) cache @ [(key, entry)]"
proof -
  from len have ne: "cache \<noteq> []" by auto
  note om = oldest_min [OF ne]
  have del: "dict_del cache (fst (oldest cache)) = remove1 (oldest cache) cache"
    using dk om by (intro dict_del_remove1) simp_all
  have nk': "key \<notin> fst ` set (remove1 (oldest cache) cache)"
    using nk set_remove1_subset [of "oldest cache" cache] by auto
  have "cache_store cache key entry = dict_set (dict_del cache (fst (oldest cache))) key entry"
    using len by (simp add: cache_store_def MAX_CACHE_SIZE_def Let_def oldest_key_hd [OF ne]
        del: sort_key_simps)
  then show ?thesis
    using nk' by (simp add: del dict_set_new)
qed

lemma run_miss:
  assumes miss: "map_of cache (lib, book, q) = None"
    and spans: "find_fts_matches stem text q 500 = Inr spans"
  shows "search_book_content_impl stem (Inr (Some text)) now now_purge cache book q hl off lib
      = search_finish now_purge
          (cache_store cache (lib, book, q)
             \<lparr>ce_timestamp = now, ce_results = map (make_hit text) spans\<rparr>)
          \<lparr>ce_timestamp = now, ce_results = map (make_hit text) spans\<rparr> book q hl off"
  using miss spans by (simp add: search_book_content_impl_def Let_def)

lemma run_hit:
  assumes dk: "distinct (map fst cache)" and h: "map_of cache (lib, book, q) = Some e"
  shows "search_book_content_impl stem rpc now now_purge cache book q hl off lib
           = search_finish now_purge
               (map (\<lambda>(k, v). if k = (lib, book, q)
                               then (k, e\<lparr>ce_timestamp := now\<rparr>) else (k, v)) cache)
               (e\<lparr>ce_timestamp := now\<rparr>) book q hl off"
proof -
  let ?key = "(lib, book, q)"
  from h have "?key \<in> fst ` set cache"
    by (metis map_of_eq_None_iff option.distinct(1))
  then have "dict_set cache ?key (e\<lparr>ce_timestamp := now\<rparr>)
      = map (\<lambda>(k, v). if k = ?key then (?key, e\<lparr>ce_timestamp := now\<rparr>) else (k, v)) cache"
    using dk by (rule dict_set_present)
  also have "\<dots> = map (\<lambda>(k, v). if k = ?key then (k, e\<lparr>ce_timestamp := now\<rparr>) else (k, v)) cache"
    by (rule map_cong) auto
  finally have ds: "dict_set cache ?key (e\<lparr>ce_timestamp := now\<rparr>)
      = map (\<lambda>(k, v). if k = ?key then (k, e\<lparr>ce_timestamp := now\<rparr>) else (k, v)) cache" .
  have "search_book_content_impl stem rpc now now_purge cache book q hl off lib
      = search_finish now_purge (dict_set cache ?key (e\<lparr>ce_timestamp := now\<rparr>))
          (e\<lparr>ce_timestamp := now\<rparr>) book q hl off"
    using h by (simp add: search_book_content_impl_def Let_def)
  then show ?thesis by (simp only: ds)
qed


lemma ex_distinct: "distinct (map fst example_cache)"
  by (simp add: example_cache_def distinct_map inj_on_def)

lemma ex_len: "length example_cache = 50"
  by (simp add: example_cache_def)

lemma ex_miss: "map_of example_cache (None, 51, ''q'') = None"
  by (auto simp: example_cache_def map_of_eq_None_iff)

lemma ex_hit: "map_of example_cache (None, 1, ''q'') = Some \<lparr>ce_timestamp = 1, ce_results = []\<rparr>"
  by (simp add: example_cache_def upt_rec)

lemma example_cache_scenario:
  "map (fst \<circ> snd \<circ> fst)
     (snd (search_book_content_impl (\<lambda>w. w) (Inr (Some ''a q b'')) 52 52
        (snd (search_book_content_impl (\<lambda>w. w) (Inl IndexError) 51 51 example_cache
                1 ''q'' 10 0 None))
        51 ''q'' 10 0 None))
   = [1] @ map int [3 ..< 52]"
  by code_simp

text \<open>
  C4. A search that misses the cache while it holds fifty entries with distinct keys, and
  whose content fetch succeeds, removes exactly one entry before it stores the new one:
  an entry whose timestamp is least among all fifty (forty-nine stay), and the new entry
  is stamped with the current time. The cache it leaves is that list after the purge of
  expired entries, and is that list itself when nothing in it has expired. A search that
  hits the cache restamps the entry with the current time and leaves every other entry as
  it was. So when the first entry inserted has been read since, the entry evicted next is
  another one: in the example cache, after a read of book 1, storing book 51 evicts
  book 2.
\<close>

theorem search_cache_evicts_oldest:
  assumes dk: "distinct (map fst cache)"
  shows
    "(length cache = 50 \<and> map_of cache (lib, book, q) = None \<longrightarrow>
       (\<exists>victim entry resp.
          search_book_content_impl stem (Inr (Some text)) now now_purge cache book q hl off lib
            = (Inr resp,
               purge_search_cache now_purge (remove1 victim cache @ [((lib, book, q), entry)]))
          \<and> victim \<in> set cache
          \<and> (\<forall>e \<in> set cache. ce_timestamp (snd victim) \<le> ce_timestamp (snd e))
          \<and> length (remove1 victim cache) = 49
          \<and> ce_timestamp entry = now
          \<and> ((\<forall>e \<in> set cache. now_purge - ce_timestamp (snd e) \<le> CACHE_TTL_SECONDS)
               \<and> now_purge - now \<le> CACHE_TTL_SECONDS \<longrightarrow>
              snd (search_book_content_impl stem (Inr (Some text)) now now_purge cache book q
                     hl off lib)
                = remove1 victim cache @ [((lib, book, q), entry)])))
     \<and> (\<forall>e. map_of cache (lib, book, q) = Some e \<longrightarrow>
          (\<exists>resp.
             search_book_content_impl stem rpc now now_purge cache book q hl off lib
               = (Inr resp,
                  purge_search_cache now_purge
                    (map (\<lambda>(k, v). if k = (lib, book, q)
                                    then (k, e\<lparr>ce_timestamp := now\<rparr>) else (k, v)) cache))
             \<and> sr_total_results resp = int (length (ce_results e))))"
proof (intro conjI impI allI)
  assume h: "length cache = 50 \<and> map_of cache (lib, book, q) = None"
  let ?key = "(lib, book, q)"
  obtain spans where spans: "find_fts_matches stem text q 500 = Inr spans"
    using find_total by blast
  let ?entry = "\<lparr>ce_timestamp = now, ce_results = map (make_hit text) spans\<rparr>"
  let ?v = "oldest cache"
  let ?c1 = "remove1 ?v cache @ [(?key, ?entry)]"
  from h have ne: "cache \<noteq> []" by auto
  note om = oldest_min [OF ne]
  from h have nk: "?key \<notin> fst ` set cache"
    by (simp add: map_of_eq_None_iff)
  have store: "cache_store cache ?key ?entry = ?c1"
    using dk h nk by (intro cache_store_full) simp_all
  let ?resp = "\<lparr>sr_book_id = book, sr_query = q,
                 sr_total_results = int (length (ce_results ?entry)), sr_offset = off,
                 sr_limit = hl,
                 sr_results = py_slice (ce_results ?entry) off (off + hl)\<rparr>"
  have "search_book_content_impl stem (Inr (Some text)) now now_purge cache book q hl off lib
      = search_finish now_purge (cache_store cache ?key ?entry) ?entry book q hl off"
    using h spans by (intro run_miss) simp_all
  also have "\<dots> = (Inr ?resp, purge_search_cache now_purge ?c1)"
    unfolding store by (simp add: search_finish_def Let_def)
  finally have run:
    "search_book_content_impl stem (Inr (Some text)) now now_purge cache book q hl off lib
      = (Inr ?resp, purge_search_cache now_purge ?c1)" .
  have len: "length (remove1 ?v cache) = 49"
    using om h by (simp add: length_remove1)
  have fresh: "(\<forall>e \<in> set cache. now_purge - ce_timestamp (snd e) \<le> CACHE_TTL_SECONDS)
               \<and> now_purge - now \<le> CACHE_TTL_SECONDS \<longrightarrow>
              snd (search_book_content_impl stem (Inr (Some text)) now now_purge cache book q
                     hl off lib) = ?c1"
  proof
    assume a: "(\<forall>e \<in> set cache. now_purge - ce_timestamp (snd e) \<le> CACHE_TTL_SECONDS)
               \<and> now_purge - now \<le> CACHE_TTL_SECONDS"
    have "\<forall>e \<in> set ?c1. now_purge - ce_timestamp (snd e) \<le> CACHE_TTL_SECONDS"
      using a set_remove1_subset [of ?v cache] by auto
    then have "purge_search_cache now_purge ?c1 = ?c1"
      by (rule purge_fresh)
    then show "snd (search_book_content_impl stem (Inr (Some text)) now now_purge cache book q
                     hl off lib) = ?c1"
      unfolding run by simp
  qed
  show "\<exists>victim entry resp.
          search_book_content_impl stem (Inr (Some text)) now now_purge cache book q hl off lib
            = (Inr resp,
               purge_search_cache now_purge (remove1 victim cache @ [((lib, book, q), entry)]))
          \<and> victim \<in> set cache
          \<and> (\<forall>e \<in> set cache. ce_timestamp (snd victim) \<le> ce_timestamp (snd e))
          \<and> length (remove1 victim cache) = 49
          \<and> ce_timestamp entry = now
          \<and> ((\<forall>e \<in> set cache. now_purge - ce_timestamp (snd e) \<le> CACHE_TTL_SECONDS)
               \<and> now_purge - now \<le> CACHE_TTL_SECONDS \<longrightarrow>
              snd (search_book_content_impl stem (Inr (Some text)) now now_purge cache book q
                     hl off lib)
                = remove1 victim cache @ [((lib, book, q), entry)])"
    apply (rule exI [of _ ?v])
    apply (rule exI [of _ ?entry])
    apply (rule exI [of _ ?resp])
    apply (intro conjI)
         apply (rule run)
        apply (rule om [THEN conjunct1])
       apply (rule om [THEN conjunct2])
      apply (rule len)
     apply simp
    apply (rule fresh)
    done
next
  fix e
  assume h: "map_of cache (lib, book, q) = Some e"
  show "\<exists>resp.
             search_book_content_impl stem rpc now now_purge cache book q hl off lib
               = (Inr resp,
                  purge_search_cache now_purge
                    (map (\<lambda>(k, v). if k = (lib, book, q)
                                    then (k, e\<lparr>ce_timestamp := now\<rparr>) else (k, v)) cache))
             \<and> sr_total_results resp = int (length (ce_results e))"
    unfolding run_hit [OF dk h] by (simp add: search_finish_def Let_def)
qed

theorem search_cache_evicts_oldest_witness:
  "(\<exists>victim entry resp.
      search_book_content_impl (\<lambda>w. w) (Inr (Some ''a q b'')) 52 52 example_cache
          51 ''q'' 10 0 None
        = (Inr resp,
           purge_search_cache 52 (remove1 victim example_cache @ [((None, 51, ''q''), entry)]))
      \<and> victim \<in> set example_cache
      \<and> (\<forall>e \<in> set example_cache. ce_timestamp (snd victim) \<le> ce_timestamp (snd e))
      \<and> length (remove1 victim example_cache) = 49)
   \<and> map (fst \<circ> snd \<circ> fst)
       (snd (search_book_content_impl (\<lambda>w. w) (Inr (Some ''a q b'')) 52 52
          (snd (search_book_content_impl (\<lambda>w. w) (Inl IndexError) 51 51 example_cache
                  1 ''q'' 10 0 None))
          51 ''q'' 10 0 None))
     = [1] @ map int [3 ..< 52]"
proof -
  have pre: "length example_cache = 50 \<and> map_of example_cache (None, 51, ''q'') = None"
    using ex_len ex_miss by simp
  from search_cache_evicts_oldest [OF ex_distinct, of None 51 "''q''" "\<lambda>w. w" "''a q b''"
      52 52 10 0, THEN conjunct1, rule_format, OF pre]
  have "\<exists>victim entry resp.
      search_book_content_impl (\<lambda>w. w) (Inr (Some ''a q b'')) 52 52 example_cache
          51 ''q'' 10 0 None
        = (Inr resp,
           purge_search_cache 52 (remove1 victim example_cache @ [((None, 51, ''q''), entry)]))
      \<and> victim \<in> set example_cache
      \<and> (\<forall>e \<in> set example_cache. ce_timestamp (snd victim) \<le> ce_timestamp (snd e))
      \<and> length (remove1 victim example_cache) = 49"
    by blast
  with example_cache_scenario show ?thesis by blast
qed

subsection \<open>Validation: errors accumulate\<close>

lemma add_error_snd: "snd (add_error m st) = snd st @ [m]"
  by (simp add: add_error_def)

lemma set_norm_snd: "snd (set_norm f v st) = snd st"
  by (simp add: set_norm_def)

lemma unexpected_snd:
  "snd (unexpected f e st) = snd st @ snd (unexpected f e ([], []))"
  by (simp add: unexpected_def add_error_def)

lemmas snd_simps = add_error_snd set_norm_snd

lemma validate_text_errors:
  "snd (validate_text B fs f v st) = snd st @ snd (validate_text B fs f v ([], []))"
  by (simp add: validate_text_def snd_simps split: option.splits pyval.splits)

lemma validate_series_errors:
  "snd (validate_series B chs f v st) = snd st @ snd (validate_series B chs f v ([], []))"
proof -
  have u: "\<And>e s. snd (unexpected f e s) = snd s @ snd (unexpected f e ([], []))"
    by (rule unexpected_snd)
  show ?thesis
    unfolding validate_series_def Let_def
    by (simp add: snd_simps u [of _ "set_norm _ _ _"] u [of _ st]
        split: option.splits sum.splits exc.splits prod.splits)
qed

lemma validate_rating_errors:
  "snd (validate_rating B f v st) = snd st @ snd (validate_rating B f v ([], []))"
  unfolding validate_rating_def
  by (simp add: snd_simps unexpected_snd [of f _ st] split: sum.splits)

lemma validate_datetime_errors:
  "snd (validate_datetime B f v st) = snd st @ snd (validate_datetime B f v ([], []))"
  unfolding validate_datetime_def
  by (simp add: snd_simps unexpected_snd [of f _ st] split: sum.splits pyval.splits)

lemma validate_int_errors:
  "snd (validate_int B f v st) = snd st @ snd (validate_int B f v ([], []))"
  unfolding validate_int_def
  by (simp add: snd_simps unexpected_snd [of f _ st] split: sum.splits)

lemma validate_float_errors:
  "snd (validate_float B f v st) = snd st @ snd (validate_float B f v ([], []))"
  unfolding validate_float_def
  by (simp add: snd_simps unexpected_snd [of f _ st] split: sum.splits)

lemma validate_enumeration_errors:
  "snd (validate_enumeration B fs f v st) = snd st @ snd (validate_enumeration B fs f v ([], []))"
  unfolding validate_enumeration_def Let_def
  by (simp add: snd_simps)

lemma validate_bool_errors:
  "snd (validate_bool f v st) = snd st @ snd (validate_bool f v ([], []))"
  unfolding validate_bool_def Let_def
  by (simp add: snd_simps split: pyval.splits)

text \<open>The errors a field adds do not depend on the state it is processed in.\<close>

lemma validate_field_errors:
  "snd (validate_field B chs sch fv st) = snd st @ snd (validate_field B chs sch fv ([], []))"
  unfolding validate_field_def Let_def
  by (simp add: snd_simps validate_text_errors [of _ _ _ _ st]
      validate_series_errors [of _ _ _ _ st] validate_rating_errors [of _ _ _ st]
      validate_datetime_errors [of _ _ _ st] validate_int_errors [of _ _ _ st]
      validate_float_errors [of _ _ _ st] validate_enumeration_errors [of _ _ _ _ st]
      validate_bool_errors [of _ _ st] split: option.splits)

lemma foldl_errors:
  "snd (foldl (\<lambda>st fv. validate_field B chs sch fv st) st0 fs)
     = snd st0 @ concat (map (\<lambda>fv. snd (validate_field B chs sch fv ([], []))) fs)"
proof (induction fs arbitrary: st0)
  case Nil
  then show ?case by simp
next
  case (Cons fv fs)
  show ?case
    by (simp add: Cons.IH validate_field_errors [of B chs sch fv st0])
qed

lemma validate_accumulates:
  "snd (validate_and_normalize_changes B chs sch)
     = concat (map (\<lambda>fv. snd (validate_field B chs sch fv ([], []))) chs)"
  by (simp add: validate_and_normalize_changes_def foldl_errors)

subsection \<open>Validation: series fields\<close>







lemma normalize_series_plain:
  "CHR ''['' \<notin> set (strip s) \<Longrightarrow> CHR '']'' \<notin> set (strip s)
     \<Longrightarrow> normalize_series_field B s = Inr (strip s, None)"
  by (simp add: normalize_series_field_def)












subsection \<open>Schema cache and book update\<close>

lemma map_of_dict_set: "map_of (dict_set d k v) k = Some v"
  by (induction d) auto

lemma map_of_dict_set_other: "k' \<noteq> k \<Longrightarrow> map_of (dict_set d k v) k' = map_of d k'"
  by (induction d) auto

lemma send_rpc_schema_calls:
  "send_rpc_schema cm be p lib = (r, p')
     \<Longrightarrow> p_calls p' = p_calls p @ (if get_library_config cm lib = None then []
                                    else [(lib, ''get_library_schema'', PDict [])])"
  by (auto simp: send_rpc_schema_def Let_def split: option.splits prod.splits)

lemma schema_impl_cached:
  "map_of (s_schemata st) lib = Some sch \<Longrightarrow> get_library_schema_impl cm be st lib = (Inr sch, st)"
  by (simp add: get_library_schema_impl_def)

lemma schema_impl_calls:
  assumes "get_library_schema_impl cm be st lib = (r, st1)"
  shows "p_calls (s_pool st1)
           = p_calls (s_pool st)
             @ (if map_of (s_schemata st) lib = None \<and> get_library_config cm lib \<noteq> None
                then [(lib, ''get_library_schema'', PDict [])] else [])"
proof (cases "map_of (s_schemata st) lib")
  case (Some sch)
  with assms show ?thesis by (simp add: get_library_schema_impl_def)
next
  case None
  obtain r0 p where sr: "send_rpc_schema cm be (s_pool st) lib = (r0, p)"
    by (cases "send_rpc_schema cm be (s_pool st) lib")
  from assms None sr have "s_pool st1 = p"
    by (auto simp: get_library_schema_impl_def Let_def split: sum.splits option.splits if_splits)
  with send_rpc_schema_calls [OF sr] None show ?thesis by auto
qed

lemma schema_impl_stores:
  assumes "get_library_schema_impl cm be st lib = (Inr sch, st1)"
  shows "map_of (s_schemata st1) lib = Some sch"
proof (cases "map_of (s_schemata st) lib")
  case (Some c)
  with assms show ?thesis by (simp add: get_library_schema_impl_def)
next
  case None
  obtain r0 p where sr: "send_rpc_schema cm be (s_pool st) lib = (r0, p)"
    by (cases "send_rpc_schema cm be (s_pool st) lib")
  from assms None sr show ?thesis
    by (auto simp: get_library_schema_impl_def Let_def map_of_dict_set
        split: sum.splits option.splits if_splits)
qed

lemma schema_impl_keeps:
  assumes "get_library_schema_impl cm be st lib = (r, st1)"
    and "map_of (s_schemata st) l = Some sch"
  shows "map_of (s_schemata st1) l = Some sch"
proof (cases "map_of (s_schemata st) lib")
  case (Some c)
  with assms show ?thesis by (simp add: get_library_schema_impl_def)
next
  case None
  with assms(2) have ne: "l \<noteq> lib" by auto
  obtain r0 p where sr: "send_rpc_schema cm be (s_pool st) lib = (r0, p)"
    by (cases "send_rpc_schema cm be (s_pool st) lib")
  from assms None sr ne show ?thesis
    by (auto simp: get_library_schema_impl_def Let_def map_of_dict_set_other
        split: sum.splits option.splits if_splits)
qed

lemma schema_impl_filtered:
  assumes conf: "get_library_config cm lib = Some conf"
    and miss: "map_of (s_schemata st) lib = None"
    and rpc: "be_schema be (p_world (s_pool st)) lib = (Inr full, w)"
    and nt: "lc_read conf \<noteq> GBool True" "lc_write conf \<noteq> GBool True"
  shows "\<exists>st1. get_library_schema_impl cm be st lib
                 = (Inr (filter (\<lambda>(k, v). k \<in> set (grant_fields (lc_read conf))
                                         \<union> set (grant_fields (lc_write conf))) full), st1)
               \<and> map_of (s_schemata st1) lib
                   = Some (filter (\<lambda>(k, v). k \<in> set (grant_fields (lc_read conf))
                                         \<union> set (grant_fields (lc_write conf))) full)"
  using assms
  by (simp add: get_library_schema_impl_def send_rpc_schema_def Let_def map_of_dict_set)

lemma update_book_rejected:
  assumes sch: "get_library_schema_impl cm be st lib = (Inr sch, st1)"
    and bad: "snd (validate_and_normalize_changes B chs sch) \<noteq> []"
  shows "\<exists>e st'. update_book_impl B cm be st book chs lib = (Inl e, st')
           \<and> (st' = st \<or> st' = st1)
           \<and> (\<forall>conf g. get_lib_conf cm lib = Inr conf
                  \<and> check_write_permission conf (Some (map fst chs)) = Inr g \<longrightarrow>
                e = ValueError (validation_message
                                  (snd (validate_and_normalize_changes B chs sch)))
                \<and> st' = st1)"
proof (cases "get_lib_conf cm lib")
  case (Inl e)
  then show ?thesis by (simp add: update_book_impl_def)
next
  case (Inr conf)
  show ?thesis
  proof (cases "check_write_permission conf (Some (map fst chs))")
    case (Inl e)
    with Inr show ?thesis by (simp add: update_book_impl_def)
  next
    case g: (Inr g)
    obtain n errs where v: "validate_and_normalize_changes B chs sch = (n, errs)"
      by (cases "validate_and_normalize_changes B chs sch")
    with bad have "errs \<noteq> []" by simp
    with Inr g sch v show ?thesis
      by (simp add: update_book_impl_def)
  qed
qed

lemma calls_of_append:
  "p_calls (s_pool st') = p_calls (s_pool st) @ extra
     \<Longrightarrow> calls_of m st' = calls_of m st @ filter (\<lambda>(l, m', ps). m' = m) extra"
  by (simp add: calls_of_def)

lemma example_conf_default:
  "get_library_config example_config None
     = Some \<lparr>lc_name = ''main'', lc_read = GBool True, lc_write = GBool True, lc_convert = False\<rparr>"
  by (simp add: get_library_config_def example_config_def mk_conf_def)

lemma example_conf_main:
  "get_library_config example_config (Some ''main'')
     = Some \<lparr>lc_name = ''main'', lc_read = GBool True, lc_write = GBool True, lc_convert = False\<rparr>"
  by (simp add: get_library_config_def example_config_def mk_conf_def)

lemma example_fetch:
  "get_library_schema_impl example_config example_backend empty_sys None
     = (Inr example_schema, fetched_sys None)"
  by (simp add: get_library_schema_impl_def send_rpc_schema_def example_conf_default
      empty_sys_def example_backend_def fetched_sys_def)

lemma example_fetch_again:
  "get_library_schema_impl example_config example_backend (fetched_sys None) (Some ''main'')
     = (Inr example_schema,
        \<lparr>s_pool = \<lparr>p_world = (),
                    p_calls = [(None, ''get_library_schema'', PDict []),
                               (Some ''main'', ''get_library_schema'', PDict [])]\<rparr>,
         s_schemata = [(None, example_schema), (Some ''main'', example_schema)]\<rparr>)"
  by (simp add: get_library_schema_impl_def send_rpc_schema_def example_conf_main
      example_backend_def fetched_sys_def)

lemma example_write_ok:
  "get_lib_conf example_config None
     = Inr \<lparr>lc_name = ''main'', lc_read = GBool True, lc_write = GBool True, lc_convert = False\<rparr>"
  "check_write_permission
     \<lparr>lc_name = ''main'', lc_read = GBool True, lc_write = GBool True, lc_convert = False\<rparr> ks
     = Inr (GBool True)"
  by (simp_all add: get_lib_conf_def example_conf_default check_write_permission_def
      split: option.splits)

lemma example_invalid_rating:
  "validate_and_normalize_changes example_builtins
      [(''rating'', PInt 11), (''comments'', PStr ''fine'')] example_schema
     = ([(''comments'', PStr ''fine'')],
        [''Field '' @ quoted ''rating''
           @ '' (rating): value must be between 0 and 10, got '' @ show_int 11 @ ''.''])"
  by (simp add: validate_and_normalize_changes_def validate_field_def validate_rating_def
      example_schema_def plain_entry_def example_builtins_def add_error_def set_norm_def
      to_str_def Let_def)

lemma example_unknown:
  "validate_and_normalize_changes example_builtins [(''odd'', PInt 11)] example_schema
     = ([(''odd'', PInt 11)],
        [''Field '' @ quoted ''odd'' @ '': unknown datatype '' @ quoted ''mystery''
           @ '', passing value through without validation.''])"
  by (simp add: validate_and_normalize_changes_def validate_field_def
      example_schema_def plain_entry_def add_error_def set_norm_def show_tag_def Let_def)

text \<open>
  C1. The errors of a validation are the errors of its fields, one field after the other
  in the order of the change set: every field is processed and nothing is dropped. When
  the schema is at hand and the validation gives an error, update_book raises (a
  ValueError with all the messages, once the library and the write grant have passed)
  and dispatches no \<^verbatim>\<open>update_book\<close> call, so no field is applied, the valid ones
  included; the only call it can have dispatched is the \<^verbatim>\<open>get_library_schema\<close> fetch
  of a cache miss.
\<close>

theorem update_book_rejects_invalid:
  "snd (validate_and_normalize_changes B chs sch)
     = concat (map (\<lambda>fv. snd (validate_field B chs sch fv ([], []))) chs)
   \<and> (get_library_schema_impl cm be st lib = (Inr sch, st1)
        \<and> snd (validate_and_normalize_changes B chs sch) \<noteq> [] \<longrightarrow>
        (\<exists>e st'. update_book_impl B cm be st book chs lib = (Inl e, st')
           \<and> calls_of ''update_book'' st' = calls_of ''update_book'' st
           \<and> (p_calls (s_pool st') = p_calls (s_pool st)
                \<or> p_calls (s_pool st')
                    = p_calls (s_pool st) @ [(lib, ''get_library_schema'', PDict [])])
           \<and> (\<forall>conf g. get_lib_conf cm lib = Inr conf
                  \<and> check_write_permission conf (Some (map fst chs)) = Inr g \<longrightarrow>
                e = ValueError (validation_message
                                  (snd (validate_and_normalize_changes B chs sch))))))"
proof (intro conjI impI)
  show "snd (validate_and_normalize_changes B chs sch)
     = concat (map (\<lambda>fv. snd (validate_field B chs sch fv ([], []))) chs)"
    by (rule validate_accumulates)
next
  assume h: "get_library_schema_impl cm be st lib = (Inr sch, st1)
        \<and> snd (validate_and_normalize_changes B chs sch) \<noteq> []"
  then have sch: "get_library_schema_impl cm be st lib = (Inr sch, st1)"
    and bad: "snd (validate_and_normalize_changes B chs sch) \<noteq> []"
    by simp_all
  from update_book_rejected [OF sch bad, of book]
  obtain e st' where r: "update_book_impl B cm be st book chs lib = (Inl e, st')"
    and s: "st' = st \<or> st' = st1"
    and m: "\<forall>conf g. get_lib_conf cm lib = Inr conf
                  \<and> check_write_permission conf (Some (map fst chs)) = Inr g \<longrightarrow>
                e = ValueError (validation_message
                                  (snd (validate_and_normalize_changes B chs sch)))"
    by blast
  have c1: "p_calls (s_pool st1) = p_calls (s_pool st)
            \<or> p_calls (s_pool st1)
                = p_calls (s_pool st) @ [(lib, ''get_library_schema'', PDict [])]"
    using schema_impl_calls [OF sch] by (simp split: if_splits)
  then have c: "p_calls (s_pool st') = p_calls (s_pool st)
            \<or> p_calls (s_pool st')
                = p_calls (s_pool st) @ [(lib, ''get_library_schema'', PDict [])]"
    using s by auto
  then have u: "calls_of ''update_book'' st' = calls_of ''update_book'' st"
    by (auto simp: calls_of_def)
  from r u c m
  show "\<exists>e st'. update_book_impl B cm be st book chs lib = (Inl e, st')
           \<and> calls_of ''update_book'' st' = calls_of ''update_book'' st
           \<and> (p_calls (s_pool st') = p_calls (s_pool st)
                \<or> p_calls (s_pool st')
                    = p_calls (s_pool st) @ [(lib, ''get_library_schema'', PDict [])])
           \<and> (\<forall>conf g. get_lib_conf cm lib = Inr conf
                  \<and> check_write_permission conf (Some (map fst chs)) = Inr g \<longrightarrow>
                e = ValueError (validation_message
                                  (snd (validate_and_normalize_changes B chs sch))))"
    by blast
qed

lemma example_update_invalid:
  "update_book_impl example_builtins example_config example_backend empty_sys 7
      [(''rating'', PInt 11), (''comments'', PStr ''fine'')] None
     = (Inl (ValueError (validation_message
               [''Field '' @ quoted ''rating''
                  @ '' (rating): value must be between 0 and 10, got '' @ show_int 11 @ ''.''])),
        fetched_sys None)"
  by (simp add: update_book_impl_def example_write_ok example_fetch example_invalid_rating)

theorem update_book_rejects_invalid_witness:
  "\<exists>e st'. update_book_impl example_builtins example_config example_backend empty_sys 7
              [(''rating'', PInt 11), (''comments'', PStr ''fine'')] None = (Inl e, st')
     \<and> calls_of ''update_book'' st' = calls_of ''update_book'' empty_sys
     \<and> e = ValueError (validation_message
              [''Field '' @ quoted ''rating''
                 @ '' (rating): value must be between 0 and 10, got '' @ show_int 11 @ ''.''])"
proof -
  have h: "get_library_schema_impl example_config example_backend empty_sys None
             = (Inr example_schema, fetched_sys None)
        \<and> snd (validate_and_normalize_changes example_builtins
                 [(''rating'', PInt 11), (''comments'', PStr ''fine'')] example_schema) \<noteq> []"
    by (simp add: example_fetch example_invalid_rating)
  from update_book_rejects_invalid [of example_builtins
      "[(''rating'', PInt 11), (''comments'', PStr ''fine'')]" example_schema example_config
      example_backend empty_sys None "fetched_sys None" 7, THEN conjunct2, rule_format, OF h]
  show ?thesis
    using example_write_ok by (auto simp: example_invalid_rating)
qed

text \<open>
  C1, the statement as given: with an empty schema cache the validation error comes after
  a backend call, the fetch of the schema. Here a change set with an invalid rating and a
  valid comment is rejected, and the log of the pool holds that one call.
\<close>

theorem update_book_schema_rpc_counterexample:
  "fst (update_book_impl example_builtins example_config example_backend empty_sys 7
          [(''rating'', PInt 11), (''comments'', PStr ''fine'')] None)
     = Inl (ValueError (validation_message
              (snd (validate_and_normalize_changes example_builtins
                      [(''rating'', PInt 11), (''comments'', PStr ''fine'')] example_schema))))
   \<and> snd (validate_and_normalize_changes example_builtins
            [(''rating'', PInt 11), (''comments'', PStr ''fine'')] example_schema) \<noteq> []
   \<and> p_calls (s_pool empty_sys) = []
   \<and> p_calls (s_pool (snd (update_book_impl example_builtins example_config example_backend
                              empty_sys 7
                              [(''rating'', PInt 11), (''comments'', PStr ''fine'')] None)))
     = [(None, ''get_library_schema'', PDict [])]"
  unfolding example_update_invalid example_invalid_rating
  by (simp add: fetched_sys_def empty_sys_def)

text \<open>
  C7. A field of an unknown datatype: the validator puts the raw value into the
  normalized changes and appends a notice to the error list. update_book raises on a
  non-empty error list, so the change set is rejected and no \<^verbatim>\<open>update_book\<close> call is
  dispatched.
\<close>

theorem unknown_datatype_rejects_update:
  "validate_and_normalize_changes example_builtins [(''odd'', PInt 11)] example_schema
     = ([(''odd'', PInt 11)],
        [''Field '' @ quoted ''odd'' @ '': unknown datatype '' @ quoted ''mystery''
           @ '', passing value through without validation.''])
   \<and> fst (update_book_impl example_builtins example_config example_backend empty_sys 7
            [(''odd'', PInt 11)] None)
     = Inl (ValueError (validation_message
              [''Field '' @ quoted ''odd'' @ '': unknown datatype '' @ quoted ''mystery''
                 @ '', passing value through without validation.'']))
   \<and> calls_of ''update_book''
        (snd (update_book_impl example_builtins example_config example_backend empty_sys 7
                [(''odd'', PInt 11)] None)) = []"
  by (simp add: update_book_impl_def example_write_ok example_fetch example_unknown
      calls_of_def fetched_sys_def)

text \<open>
  C8. The schema cache is keyed by the library name as the caller passed it. The default
  library is reached with no name and with its own name; a get-schema call without a
  name followed by one with the name fetches the schema of the same library twice.
\<close>

theorem schema_fetched_twice_for_alias:
  "get_library_config example_config None = get_library_config example_config (Some ''main'')
   \<and> p_calls (s_pool (snd (get_library_schema_impl example_config example_backend
        (snd (get_library_schema_impl example_config example_backend empty_sys None))
        (Some ''main''))))
     = [(None, ''get_library_schema'', PDict []),
        (Some ''main'', ''get_library_schema'', PDict [])]"
  by (simp add: example_conf_default example_conf_main example_fetch example_fetch_again)

subsection \<open>Worker pool\<close>






lemma bump_stats_files:
  "worker_stderr_files (bump_stats now d name pool) = worker_stderr_files pool"
  by (simp add: bump_stats_def split: option.splits)
















end
